theory Spec2Isabelle
  imports Main "HOL-Library.Word" "HOL-Library.Sublist"
begin

unbundle bit_operations_syntax

section \<open>Error numbers\<close>

text \<open>
  A failing system call returns -1 and leaves a positive error number in \<open>errno\<close>.
  The type holds exactly the positive numbers, so \<open>-errno\<close> is negative by typing.
\<close>

typedef errno = "{n :: int. 0 < n}"
  by (rule exI [of _ 1]) simp

definition errno_code :: "errno \<Rightarrow> int" where
  "errno_code e = Rep_errno e"

definition EPERM :: errno where "EPERM = Abs_errno 1"
definition ENOENT :: errno where "ENOENT = Abs_errno 2"
definition ESRCH :: errno where "ESRCH = Abs_errno 3"
definition ECHILD :: errno where "ECHILD = Abs_errno 10"
definition ENOMEM :: errno where "ENOMEM = Abs_errno 12"
definition EINVAL :: errno where "EINVAL = Abs_errno 22"

definition EXIT_FAILURE :: int where "EXIT_FAILURE = 1"

section \<open>Security monitor (security\_monitor.c, security\_monitor.h)\<close>

definition MAX_EVENTS :: int where "MAX_EVENTS = 10000"
definition MAX_RULES :: int where "MAX_RULES = 1000"

text \<open>\<open>enum security_event_type\<close>; a rule's type is cast from a parsed integer, so the
  model keeps the underlying integer.\<close>

definition EVENT_PROCESS_START :: int where "EVENT_PROCESS_START = 1"
definition EVENT_PROCESS_EXIT :: int where "EVENT_PROCESS_EXIT = 2"
definition EVENT_FILE_ACCESS :: int where "EVENT_FILE_ACCESS = 3"
definition EVENT_NETWORK_CONNECTION :: int where "EVENT_NETWORK_CONNECTION = 4"
definition EVENT_PRIVILEGE_ESCALATION :: int where "EVENT_PRIVILEGE_ESCALATION = 5"
definition EVENT_POLICY_VIOLATION :: int where "EVENT_POLICY_VIOLATION = 6"
definition EVENT_ANOMALY_DETECTED :: int where "EVENT_ANOMALY_DETECTED = 7"

record security_event =
  type :: int
  timestamp :: int
  pid :: int
  uid :: "32 word"
  gid :: "32 word"
  process_name :: string
  details :: string
  severity :: int

record security_rule =
  rule_id :: int
  event_type :: int
  pattern :: string
  action :: int
  enabled :: int

text \<open>What the monitor hands to \<open>syslog\<close>: priority and the formatted arguments.\<close>

datatype log_priority = LOG_CRIT | LOG_ALERT | LOG_WARNING | LOG_NOTICE | LOG_INFO

datatype log_entry =
    Monitor_initialized
  | High_severity_event string int "32 word"
  | Rule_triggered int string
  | Security_alert int string
  | Security_block int string
  | Rules_loaded int
  | Privilege_escalation_detected int "32 word"
  | Policy_violation string
  | Anomaly_detected string

fun priority :: "log_entry \<Rightarrow> log_priority" where
  "priority Monitor_initialized = LOG_INFO"
| "priority (High_severity_event d p u) = LOG_ALERT"
| "priority (Rule_triggered r d) = LOG_WARNING"
| "priority (Security_alert r d) = LOG_ALERT"
| "priority (Security_block r d) = LOG_CRIT"
| "priority (Rules_loaded n) = LOG_INFO"
| "priority (Privilege_escalation_detected p u) = LOG_ALERT"
| "priority (Policy_violation d) = LOG_WARNING"
| "priority (Anomaly_detected d) = LOG_NOTICE"

text \<open>The file-scope statics. The two arrays are indexed memory; \<open>event_count\<close> and
  \<open>rule_count\<close> say how much of each is in use.\<close>

record monitor =
  events :: "nat \<Rightarrow> security_event"
  rules :: "nat \<Rightarrow> security_rule"
  event_count :: int
  rule_count :: int
  monitor_initialized :: bool
  syslog :: "log_entry list"

definition zero_event :: security_event where
  "zero_event = \<lparr>type = 0, timestamp = 0, pid = 0, uid = 0, gid = 0,
     process_name = [], details = [], severity = 0\<rparr>"

definition zero_rule :: security_rule where
  "zero_rule = \<lparr>rule_id = 0, event_type = 0, pattern = [], action = 0, enabled = 0\<rparr>"

text \<open>Static storage is zero-initialised before \<open>main\<close> runs.\<close>

definition initial_monitor :: monitor where
  "initial_monitor = \<lparr>events = (\<lambda>_. zero_event), rules = (\<lambda>_. zero_rule),
     event_count = 0, rule_count = 0, monitor_initialized = False, syslog = []\<rparr>"

definition init_security_monitor :: "monitor \<Rightarrow> int \<times> monitor" where
  "init_security_monitor s =
     (if monitor_initialized s then (0, s)
      else (0, s\<lparr>events := (\<lambda>_. zero_event), rules := (\<lambda>_. zero_rule),
                  event_count := 0, rule_count := 0, monitor_initialized := True,
                  syslog := syslog s @ [Monitor_initialized]\<rparr>))"

text \<open>\<open>add_security_event\<close>: \<open>now\<close> is what \<open>time(NULL)\<close> returns, the event pointer is
  \<open>None\<close> when it is null. The caller's event is written to (the timestamp), so it is
  returned beside the status and the statics.\<close>

definition add_security_event ::
  "int \<Rightarrow> security_event option \<Rightarrow> monitor \<Rightarrow> int \<times> security_event option \<times> monitor" where
  "add_security_event now event s =
     (if \<not> monitor_initialized s then (- errno_code EINVAL, event, s)
      else case event of
        None \<Rightarrow> (- errno_code EINVAL, event, s)
      | Some ev \<Rightarrow>
          if event_count s \<ge> MAX_EVENTS then (- errno_code EINVAL, event, s)
          else
            let ev1 = (if timestamp ev = 0 then ev\<lparr>timestamp := now\<rparr> else ev);
                s1 = s\<lparr>events := (events s)(nat (event_count s) := ev1)\<rparr>;
                s2 = s1\<lparr>event_count := event_count s1 + 1\<rparr>;
                s3 = (if severity ev1 \<ge> 8
                      then s2\<lparr>syslog := syslog s2 @ [High_severity_event (details ev1) (pid ev1) (uid ev1)]\<rparr>
                      else s2)
            in (0, Some ev1, s3))"

text \<open>\<open>strstr\<close> of the C library: the offset of the first occurrence of the needle in
  the haystack, \<open>None\<close> for the null pointer. Strings are the characters before the
  terminating NUL.\<close>

fun strstr :: "string \<Rightarrow> string \<Rightarrow> nat option" where
  "strstr [] needle = (if needle = [] then Some 0 else None)"
| "strstr (c # cs) needle =
     (if prefix needle (c # cs) then Some 0 else map_option Suc (strstr cs needle))"

definition match_rule_pattern :: "string \<Rightarrow> string \<Rightarrow> bool" where
  "match_rule_pattern pat text = (strstr text pat \<noteq> None)"

text \<open>The \<open>switch\<close> on the rule's action: 0 logs, 1 alerts, 2 blocks, anything else
  writes nothing.\<close>

definition action_log :: "security_rule \<Rightarrow> security_event \<Rightarrow> log_entry list" where
  "action_log rule event =
     (if action rule = 0 then [Rule_triggered (rule_id rule) (details event)]
      else if action rule = 1 then [Security_alert (rule_id rule) (details event)]
      else if action rule = 2 then [Security_block (rule_id rule) (details event)]
      else [])"

text \<open>The inner loop \<open>for (j = 0; j < rule_count; j++)\<close> for one event; it carries
  \<open>processed\<close> and the log.\<close>

function rules_loop ::
  "monitor \<Rightarrow> security_event \<Rightarrow> int \<Rightarrow> int \<times> log_entry list \<Rightarrow> int \<times> log_entry list" where
  "rules_loop s event j (processed, lg) =
     (if j < rule_count s then
        let rule = rules s (nat j) in
        if enabled rule = 0 \<or> event_type rule \<noteq> type event
        then rules_loop s event (j + 1) (processed, lg)
        else if match_rule_pattern (pattern rule) (details event)
        then rules_loop s event (j + 1) (processed + 1, lg @ action_log rule event)
        else rules_loop s event (j + 1) (processed, lg)
      else (processed, lg))"
  by pat_completeness auto
termination
  by (relation "measure (\<lambda>(s, event, j, acc). nat (rule_count s - j))") auto

text \<open>The outer loop \<open>for (i = 0; i < event_count; i++)\<close>.\<close>

function events_loop :: "monitor \<Rightarrow> int \<Rightarrow> int \<times> log_entry list \<Rightarrow> int \<times> log_entry list" where
  "events_loop s i acc =
     (if i < event_count s
      then events_loop s (i + 1) (rules_loop s (events s (nat i)) 0 acc)
      else acc)"
  by pat_completeness auto
termination
  by (relation "measure (\<lambda>(s, i, acc). nat (event_count s - i))") auto

definition process_security_events :: "monitor \<Rightarrow> int \<times> monitor" where
  "process_security_events s =
     (if \<not> monitor_initialized s then (- errno_code EINVAL, s)
      else let (processed, lg) = events_loop s 0 (0, syslog s)
           in (processed, s\<lparr>syslog := lg\<rparr>))"

text \<open>The claim's reading of the monitor, for comparison with the loops: a rule matches an
  event when it is enabled, the types agree and the pattern occurs in the detail text; the
  pairs are listed event by event, and for each event rule by rule.\<close>

definition rule_matches :: "security_rule \<Rightarrow> security_event \<Rightarrow> bool" where
  "rule_matches r e = (enabled r \<noteq> 0 \<and> event_type r = type e \<and> sublist (pattern r) (details e))"

definition buffered_events :: "monitor \<Rightarrow> security_event list" where
  "buffered_events s = map (events s) [0..<nat (event_count s)]"

definition loaded_rules :: "monitor \<Rightarrow> security_rule list" where
  "loaded_rules s = map (rules s) [0..<nat (rule_count s)]"

definition matching_pairs :: "monitor \<Rightarrow> (security_event \<times> security_rule) list" where
  "matching_pairs s =
     concat (map (\<lambda>e. map (Pair e) (filter (\<lambda>r. rule_matches r e) (loaded_rules s))) (buffered_events s))"


text \<open>\<open>load_security_rules\<close>. The file is what \<open>fopen\<close> and \<open>fgets\<close> make of it: it cannot
  be opened, or it is a list of lines. A line is what \<open>sscanf\<close> with the format
  \<open>%d %d %255s %d %d\<close> finds in it: the number of conversions it returns (5 for a whole
  rule) and the values converted. \<open>sscanf\<close> stores the first, third, fourth and fifth
  value straight into the slot \<open>rules[rule_count]\<close>, so a line that is only partly a rule
  still writes the fields it got that far; the event type goes through a local variable
  and reaches the slot only for a whole rule.\<close>

record scanned_line =
  conversions :: int
  first_int :: int
  second_int :: int
  third_word :: string
  fourth_int :: int
  fifth_int :: int

datatype rules_file = Cannot_open errno | Lines "scanned_line list"

definition sscanf_into :: "scanned_line \<Rightarrow> security_rule \<Rightarrow> security_rule" where
  "sscanf_into ln rule =
     (let rule = (if conversions ln \<ge> 1 then rule\<lparr>rule_id := first_int ln\<rparr> else rule);
          rule = (if conversions ln \<ge> 3 then rule\<lparr>pattern := third_word ln\<rparr> else rule);
          rule = (if conversions ln \<ge> 4 then rule\<lparr>action := fourth_int ln\<rparr> else rule);
          rule = (if conversions ln \<ge> 5 then rule\<lparr>enabled := fifth_int ln\<rparr> else rule)
      in rule)"

text \<open>The loop \<open>while (fgets(...) && rule_count < MAX_RULES)\<close> over the lines that are
  left.\<close>

fun load_loop :: "scanned_line list \<Rightarrow> monitor \<Rightarrow> monitor" where
  "load_loop [] s = s"
| "load_loop (ln # rest) s =
     (if rule_count s < MAX_RULES then
        let slot = nat (rule_count s);
            rule = sscanf_into ln (rules s slot)
        in if conversions ln = 5
           then load_loop rest (s\<lparr>rules := (rules s)(slot := rule\<lparr>event_type := second_int ln\<rparr>),
                                   rule_count := rule_count s + 1\<rparr>)
           else load_loop rest (s\<lparr>rules := (rules s)(slot := rule)\<rparr>)
      else s)"

definition load_security_rules :: "rules_file \<Rightarrow> monitor \<Rightarrow> int \<times> monitor" where
  "load_security_rules file s =
     (if \<not> monitor_initialized s then (- errno_code EINVAL, s)
      else case file of
        Cannot_open e \<Rightarrow> (- errno_code e, s)
      | Lines lns \<Rightarrow>
          let s1 = load_loop lns s
          in (rule_count s1, s1\<lparr>syslog := syslog s1 @ [Rules_loaded (rule_count s1)]\<rparr>))"

text \<open>\<open>check_security_violations\<close>: the loop over the buffered events, carrying
  \<open>violations\<close> and the log; the three tests are independent \<open>if\<close>s.\<close>

function violations_loop :: "monitor \<Rightarrow> int \<Rightarrow> int \<times> log_entry list \<Rightarrow> int \<times> log_entry list" where
  "violations_loop s i (violations, lg) =
     (if i < event_count s then
        let event = events s (nat i);
            (v1, l1) = (if type event = EVENT_PRIVILEGE_ESCALATION
                        then (violations + 1, lg @ [Privilege_escalation_detected (pid event) (uid event)])
                        else (violations, lg));
            (v2, l2) = (if type event = EVENT_POLICY_VIOLATION
                        then (v1 + 1, l1 @ [Policy_violation (details event)])
                        else (v1, l1));
            (v3, l3) = (if type event = EVENT_ANOMALY_DETECTED
                        then (v2 + 1, l2 @ [Anomaly_detected (details event)])
                        else (v2, l2))
        in violations_loop s (i + 1) (v3, l3)
      else (violations, lg))"
  by pat_completeness auto
termination
  by (relation "measure (\<lambda>(s, i, acc). nat (event_count s - i))") auto

definition check_security_violations :: "monitor \<Rightarrow> int \<times> monitor" where
  "check_security_violations s =
     (if \<not> monitor_initialized s then (- errno_code EINVAL, s)
      else let (violations, lg) = violations_loop s 0 (0, syslog s)
           in (violations, s\<lparr>syslog := lg\<rparr>))"

text \<open>The states the monitor can be in: the zeroed statics, and whatever one of the five
  operations of the file makes of a state already reached.\<close>

inductive reachable :: "monitor \<Rightarrow> bool" where
  start: "reachable initial_monitor"
| init: "reachable s \<Longrightarrow> reachable (snd (init_security_monitor s))"
| add: "reachable s \<Longrightarrow> reachable (snd (snd (add_security_event now event s)))"
| load: "reachable s \<Longrightarrow> reachable (snd (load_security_rules file s))"
| process: "reachable s \<Longrightarrow> reachable (snd (process_security_events s))"
| check: "reachable s \<Longrightarrow> reachable (snd (check_security_violations s))"

text \<open>Concrete monitors: initialised, then one rule loaded from a file of two lines (the
  second is not a rule), then \<open>n\<close> events added.\<close>

definition privilege_rule_file :: rules_file where
  "privilege_rule_file = Lines
     [\<lparr>conversions = 5, first_int = 7, second_int = 5, third_word = ''setuid'',
        fourth_int = 1, fifth_int = 1\<rparr>,
      \<lparr>conversions = 1, first_int = 8, second_int = 0, third_word = [],
        fourth_int = 0, fifth_int = 0\<rparr>]"

definition armed_monitor :: monitor where
  "armed_monitor = snd (load_security_rules privilege_rule_file
                     (snd (init_security_monitor initial_monitor)))"

definition escalation_event :: security_event where
  "escalation_event = \<lparr>type = 5, timestamp = 0, pid = 4242, uid = 1000, gid = 1000,
     process_name = ''viewer'', details = ''setuid(0) succeeded'', severity = 9\<rparr>"

fun filled_monitor :: "nat \<Rightarrow> monitor" where
  "filled_monitor 0 = armed_monitor"
| "filled_monitor (Suc n) = snd (snd (add_security_event 42 (Some escalation_event) (filled_monitor n)))"


section \<open>The process a builder runs in, and its system calls\<close>

datatype rlimit_resource = RLIMIT_AS | RLIMIT_CPU | RLIMIT_FSIZE | RLIMIT_NPROC | RLIMIT_NOFILE

text \<open>\<open>struct __user_cap_data_struct\<close> of \<open>linux/capability.h\<close>: three 32-bit sets.\<close>

record cap_data =
  effective :: "32 word"
  permitted :: "32 word"
  inheritable :: "32 word"

text \<open>The fixed BPF program of \<open>install_seccomp_filter\<close>, instruction by instruction.\<close>

datatype bpf_insn =
    Load_arch
  | Load_syscall_nr
  | Jump_if_arch_x86_64 nat nat
  | Jump_if_syscall string nat nat
  | Ret_kill
  | Ret_allow

datatype seccomp_mode = SECCOMP_MODE_STRICT | SECCOMP_MODE_FILTER "bpf_insn list"

datatype signal = SIGTERM | SIGKILL

text \<open>A system call with the arguments the builders pass. A null string pointer is
  \<open>None\<close>.\<close>

datatype syscall =
    Unshare "32 word"
  | Mount "string option" string "string option" "64 word" "string option"
  | Chroot string
  | Chdir string
  | Prctl_set_no_new_privs
  | Prctl_set_seccomp seccomp_mode
  | Prctl_capbset_drop int
  | Capget
  | Capset cap_data cap_data
  | Setrlimit rlimit_resource "64 word" "64 word"
  | Setgid "32 word"
  | Setuid "32 word"
  | Execve string "string list" "string list"
  | Execv string "string list"

text \<open>What the builders print: the audit lines of the three files.\<close>

datatype audit_entry =
    Sandbox_failure string int
  | Sandbox_success int
  | Capability_operation string int
  | App_sandbox_event string string int
  | Perror string
  | Stderr string

text \<open>A process as the code sees it: the system calls it has issued (oldest first), the
  thread's \<open>errno\<close> variable, and what it has printed.\<close>

record proc =
  calls :: "syscall list"
  errno_var :: int
  audit :: "audit_entry list"

text \<open>The kernel is a parameter: given the calls issued so far and the next call, it
  answers success (\<open>None\<close>) or an error number. Nothing is assumed about its answers.
  Every call returns; a kernel that kills the process during a call is outside the
  model.\<close>

type_synonym kernel = "syscall list \<Rightarrow> syscall \<Rightarrow> errno option"

text \<open>Issuing a call: 0 on success; on failure -1, with \<open>errno\<close> set.\<close>

definition sys :: "kernel \<Rightarrow> syscall \<Rightarrow> proc \<Rightarrow> int \<times> proc" where
  "sys K c p =
     (case K (calls p) c of
        None \<Rightarrow> (0, p\<lparr>calls := calls p @ [c]\<rparr>)
      | Some e \<Rightarrow> (- 1, p\<lparr>calls := calls p @ [c], errno_var := errno_code e\<rparr>))"

definition log_audit :: "audit_entry \<Rightarrow> proc \<Rightarrow> proc" where
  "log_audit a p = p\<lparr>audit := audit p @ [a]\<rparr>"

text \<open>Concrete kernels and a concrete starting process, for running the builders: a
  kernel on which every call succeeds; one on which the privilege drop is real, so that
  \<open>setuid(0)\<close> fails and everything else succeeds; one that refuses new namespaces; and
  one that refuses every mount.\<close>

definition accepting :: kernel where
  "accepting tr c = None"


fun no_namespaces :: kernel where
  "no_namespaces tr (Unshare fl) = Some EPERM"
| "no_namespaces tr c = None"

fun no_mounts :: kernel where
  "no_mounts tr (Mount src tgt fs fl dat) = Some EPERM"
| "no_mounts tr c = None"

definition fresh_proc :: proc where
  "fresh_proc = \<lparr>calls = [], errno_var = 0, audit = []\<rparr>"

section \<open>Capability controller (capability\_syscalls.c)\<close>

definition zero_caps :: cap_data where
  "zero_caps = \<lparr>effective = 0, permitted = 0, inheritable = 0\<rparr>"

definition secureos_cap_get_proc :: "kernel \<Rightarrow> proc \<Rightarrow> int \<times> proc" where
  "secureos_cap_get_proc K p = sys K Capget p"

definition secureos_cap_set_proc :: "kernel \<Rightarrow> cap_data \<times> cap_data \<Rightarrow> proc \<Rightarrow> int \<times> proc" where
  "secureos_cap_set_proc K caps p = sys K (Capset (fst caps) (snd caps)) p"

definition secureos_cap_clear_all :: "kernel \<Rightarrow> proc \<Rightarrow> int \<times> proc" where
  "secureos_cap_clear_all K p = secureos_cap_set_proc K (zero_caps, zero_caps) p"

text \<open>\<open>unsigned long\<close> is 64 bits wide. The buffer \<open>capget\<close> filled is overwritten by the
  \<open>memset\<close> before it is read. \<open>required_cap_words\<close> is the part of
  \<open>secureos_cap_drop_all_except\<close> between the two calls: the \<open>memset\<close> and the
  conditional assignments to \<open>caps[0]\<close> and \<open>caps[1]\<close>.\<close>

definition required_cap_words :: "64 word \<Rightarrow> cap_data \<times> cap_data" where
  "required_cap_words required_caps =
     (let caps0 = zero_caps; caps1 = zero_caps in
      if required_caps \<noteq> 0 then
        let caps0 = caps0\<lparr>effective := ucast (required_caps AND 0xFFFFFFFF)\<rparr>;
            caps0 = caps0\<lparr>permitted := ucast (required_caps AND 0xFFFFFFFF)\<rparr>;
            caps0 = caps0\<lparr>inheritable := 0\<rparr>
        in if required_caps > 0xFFFFFFFF then
             let caps1 = caps1\<lparr>effective := ucast (drop_bit 32 required_caps AND 0xFFFFFFFF)\<rparr>;
                 caps1 = caps1\<lparr>permitted := ucast (drop_bit 32 required_caps AND 0xFFFFFFFF)\<rparr>;
                 caps1 = caps1\<lparr>inheritable := 0\<rparr>
             in (caps0, caps1)
           else (caps0, caps1)
      else (caps0, caps1))"

definition secureos_cap_drop_all_except :: "kernel \<Rightarrow> 64 word \<Rightarrow> proc \<Rightarrow> int \<times> proc" where
  "secureos_cap_drop_all_except K required_caps p =
     (let (r, p1) = secureos_cap_get_proc K p in
      if r < 0 then (- errno_var p1, p1)
      else secureos_cap_set_proc K (required_cap_words required_caps) p1)"

definition audit_capability_operation :: "string \<Rightarrow> int \<Rightarrow> proc \<Rightarrow> proc" where
  "audit_capability_operation operation result p = log_audit (Capability_operation operation result) p"

text \<open>Reading one capability out of a pair of words, with the indexing of
  \<open>secureos_cap_has_capability\<close>: word 0 holds capabilities 0 to 31, word 1 holds 32 to 63.\<close>

definition cap_in :: "(cap_data \<Rightarrow> 32 word) \<Rightarrow> cap_data \<Rightarrow> cap_data \<Rightarrow> nat \<Rightarrow> bool" where
  "cap_in sel caps0 caps1 cap =
     (if cap < 32 then bit (sel caps0) cap
      else if cap < 64 then bit (sel caps1) (cap - 32)
      else False)"

section \<open>Process sandbox (secure\_sandbox\_fixed.c, secure\_sandbox.h)\<close>

definition MAX_MOUNTS :: int where "MAX_MOUNTS = 64"

text \<open>Mount flags of \<open>sys/mount.h\<close>.\<close>

definition MS_RDONLY :: "64 word" where "MS_RDONLY = 1"
definition MS_NOSUID :: "64 word" where "MS_NOSUID = 2"
definition MS_NODEV :: "64 word" where "MS_NODEV = 4"
definition MS_NOEXEC :: "64 word" where "MS_NOEXEC = 8"
definition MS_BIND :: "64 word" where "MS_BIND = 4096"
definition MS_REC :: "64 word" where "MS_REC = 16384"
definition MS_PRIVATE :: "64 word" where "MS_PRIVATE = 262144"

text \<open>Namespace flags of \<open>sched.h\<close>.\<close>

definition CLONE_NEWNS :: "32 word" where "CLONE_NEWNS = 0x00020000"
definition CLONE_NEWUTS :: "32 word" where "CLONE_NEWUTS = 0x04000000"
definition CLONE_NEWIPC :: "32 word" where "CLONE_NEWIPC = 0x08000000"
definition CLONE_NEWUSER :: "32 word" where "CLONE_NEWUSER = 0x10000000"
definition CLONE_NEWPID :: "32 word" where "CLONE_NEWPID = 0x20000000"
definition CLONE_NEWNET :: "32 word" where "CLONE_NEWNET = 0x40000000"

record sandbox_limits =
  max_memory :: "64 word"
  max_cpu_time :: "64 word"
  max_file_size :: "64 word"
  max_processes :: "32 word"
  max_open_files :: "32 word"

record sandbox_mount =
  source :: string
  target :: string
  fstype :: string
  flags :: "64 word"
  readonly :: int

text \<open>\<open>struct sandbox_config\<close>. \<open>mounts\<close> is the array, indexed; it has \<open>MAX_MOUNTS\<close>
  entries in C, and nothing in this file compares \<open>mount_count\<close> with that bound.\<close>

record sandbox_config =
  program :: string
  argv :: "string list"
  envp :: "string list"
  uid :: "32 word"
  gid :: "32 word"
  allowed_syscalls :: "64 word list"
  required_caps :: "64 word"
  limits :: sandbox_limits
  mounts :: "nat \<Rightarrow> sandbox_mount"
  mount_count :: int
  network_access :: int
  x11_access :: int

definition audit_log_sandbox_failure :: "string \<Rightarrow> int \<Rightarrow> proc \<Rightarrow> proc" where
  "audit_log_sandbox_failure operation error_code p = log_audit (Sandbox_failure operation error_code) p"

definition audit_log_sandbox_success :: "int \<Rightarrow> proc \<Rightarrow> proc" where
  "audit_log_sandbox_success child_pid p = log_audit (Sandbox_success child_pid) p"

text \<open>\<open>validate_sandbox_config\<close>; \<open>getuid\<close> is the caller's user id, a null \<open>config\<close> is
  \<open>None\<close>.\<close>

definition validate_sandbox_config :: "32 word \<Rightarrow> sandbox_config option \<Rightarrow> int" where
  "validate_sandbox_config getuid config =
     (case config of
        None \<Rightarrow> - errno_code EINVAL
      | Some c \<Rightarrow>
          if program c = [] then - errno_code EINVAL
          else if uid c = 0 \<and> getuid \<noteq> 0 then - errno_code EPERM
          else 0)"

text \<open>The loop over the custom mounts, from index \<open>i\<close>.\<close>

function custom_mounts_loop :: "kernel \<Rightarrow> sandbox_config \<Rightarrow> int \<Rightarrow> proc \<Rightarrow> int \<times> proc" where
  "custom_mounts_loop K config i p =
     (if i < mount_count config then
        let m = mounts config (nat i);
            fl = (if readonly m \<noteq> 0 then flags m OR MS_RDONLY else flags m);
            (ret, p1) = sys K (Mount (Some (source m)) (target m) (Some (fstype m)) fl None) p
        in if ret < 0 then (- errno_var p1, p1)
           else custom_mounts_loop K config (i + 1) p1
      else (0, p))"
  by pat_completeness auto
termination
  by (relation "measure (\<lambda>(K, config, i, p). nat (mount_count config - i))") auto

definition setup_sandbox_mounts :: "kernel \<Rightarrow> sandbox_config \<Rightarrow> proc \<Rightarrow> int \<times> proc" where
  "setup_sandbox_mounts K config p =
     (let (ret, p1) = sys K (Mount None ''/'' None (MS_REC OR MS_PRIVATE) None) p in
      if ret < 0 then (- errno_var p1, p1)
      else
        let (ret, p2) = sys K (Mount (Some ''tmpfs'') ''/tmp'' (Some ''tmpfs'')
                                 (MS_NODEV OR MS_NOSUID OR MS_NOEXEC) (Some ''size=100M,mode=1777'')) p1 in
        if ret < 0 then (- errno_var p2, p2)
        else custom_mounts_loop K config 0 p2)"

definition apply_seccomp_filter :: "kernel \<Rightarrow> 64 word list \<Rightarrow> proc \<Rightarrow> int \<times> proc" where
  "apply_seccomp_filter K allowed p =
     (let (ret, p1) = sys K Prctl_set_no_new_privs p in
      if ret < 0 then (- errno_var p1, p1)
      else
        let (ret, p2) = sys K (Prctl_set_seccomp SECCOMP_MODE_STRICT) p1 in
        if ret < 0 then (- errno_var p2, p2)
        else (0, p2))"

definition drop_all_capabilities_except :: "kernel \<Rightarrow> 64 word \<Rightarrow> proc \<Rightarrow> int \<times> proc" where
  "drop_all_capabilities_except K required p =
     (let (ret, p1) = secureos_cap_drop_all_except K required p
      in (ret, audit_capability_operation ''drop_capabilities'' ret p1))"

text \<open>\<open>rlim_t\<close> is 64 bits wide; the two \<open>unsigned int\<close> fields are widened on
  assignment.\<close>

definition apply_resource_limits :: "kernel \<Rightarrow> sandbox_limits \<Rightarrow> proc \<Rightarrow> int \<times> proc" where
  "apply_resource_limits K lim p =
     (let (r1, p1) = (if max_memory lim > 0
                      then sys K (Setrlimit RLIMIT_AS (max_memory lim) (max_memory lim)) p
                      else (0, p)) in
      if r1 < 0 then (- errno_var p1, p1) else
      let (r2, p2) = (if max_cpu_time lim > 0
                      then sys K (Setrlimit RLIMIT_CPU (max_cpu_time lim) (max_cpu_time lim)) p1
                      else (0, p1)) in
      if r2 < 0 then (- errno_var p2, p2) else
      let (r3, p3) = (if max_file_size lim > 0
                      then sys K (Setrlimit RLIMIT_FSIZE (max_file_size lim) (max_file_size lim)) p2
                      else (0, p2)) in
      if r3 < 0 then (- errno_var p3, p3) else
      let (r4, p4) = (if max_processes lim > 0
                      then sys K (Setrlimit RLIMIT_NPROC (ucast (max_processes lim)) (ucast (max_processes lim))) p3
                      else (0, p3)) in
      if r4 < 0 then (- errno_var p4, p4) else
      let (r5, p5) = (if max_open_files lim > 0
                      then sys K (Setrlimit RLIMIT_NOFILE (ucast (max_open_files lim)) (ucast (max_open_files lim))) p4
                      else (0, p4)) in
      if r5 < 0 then (- errno_var p5, p5) else (0, p5))"

definition change_to_sandbox_user :: "kernel \<Rightarrow> 32 word \<Rightarrow> 32 word \<Rightarrow> proc \<Rightarrow> int \<times> proc" where
  "change_to_sandbox_user K u g p =
     (let (r1, p1) = sys K (Setgid g) p in
      if r1 < 0 then (- errno_var p1, p1) else
      let (r2, p2) = sys K (Setuid u) p1 in
      if r2 < 0 then (- errno_var p2, p2) else
      let (r3, p3) = sys K (Setuid 0) p2 in
      if r3 = 0 then (- errno_code EPERM, p3) else (0, p3))"

text \<open>How a forked child ends: it calls \<open>_exit\<close>, or \<open>exec\<close> succeeds and the target
  program takes over.\<close>

datatype child_end = Exited int | Image_replaced

text \<open>The \<open>if (pid == 0)\<close> block of \<open>create_secure_sandbox\<close>; \<open>self\<close> is what \<open>getpid\<close>
  returns in the child.\<close>

definition secure_sandbox_child :: "kernel \<Rightarrow> int \<Rightarrow> sandbox_config \<Rightarrow> proc \<Rightarrow> child_end \<times> proc" where
  "secure_sandbox_child K self config p =
     (let (ret, p1) = sys K (Unshare (0x00020000 OR 0x20000000 OR 0x40000000 OR
                                       0x04000000 OR 0x08000000 OR 0x10000000)) p in
      if ret < 0 then (Exited EXIT_FAILURE, audit_log_sandbox_failure ''namespace creation'' (errno_var p1) p1) else
      let (ret, p2) = setup_sandbox_mounts K config p1 in
      if ret < 0 then (Exited EXIT_FAILURE, audit_log_sandbox_failure ''mount setup'' ret p2) else
      let (ret, p3) = apply_seccomp_filter K (allowed_syscalls config) p2 in
      if ret < 0 then (Exited EXIT_FAILURE, audit_log_sandbox_failure ''seccomp setup'' ret p3) else
      let (ret, p4) = drop_all_capabilities_except K (required_caps config) p3 in
      if ret < 0 then (Exited EXIT_FAILURE, audit_log_sandbox_failure ''capability drop'' ret p4) else
      let (ret, p5) = apply_resource_limits K (limits config) p4 in
      if ret < 0 then (Exited EXIT_FAILURE, audit_log_sandbox_failure ''resource limits'' ret p5) else
      let (ret, p6) = change_to_sandbox_user K (uid config) (gid config) p5 in
      if ret < 0 then (Exited EXIT_FAILURE, audit_log_sandbox_failure ''user change'' ret p6) else
      let p7 = audit_log_sandbox_success self p6;
          (ret, p8) = sys K (Execve (program config) (argv config) (envp config)) p7
      in if ret < 0 then (Exited EXIT_FAILURE, p8) else (Image_replaced, p8))"

text \<open>What \<open>fork\<close> returned in the process that goes on: an error, or a process id, 0 in
  the child.\<close>

datatype fork_result = Fork_failed errno | Fork_returned nat

text \<open>What became of a call that forks: it returned a value to its caller, or this process
  was the child and ended inside the call.\<close>

datatype outcome = Returned int | Child_ended child_end

text \<open>\<open>create_secure_sandbox\<close>. \<open>fk\<close> is what \<open>fork\<close> returns in this process, \<open>self\<close> what
  \<open>getpid\<close> returns in it, \<open>getuid\<close> its user id. The second component of the result says
  whether \<open>fork\<close> was called. The test \<open>!validate_sandbox_config(config)\<close> is true when
  validation returns 0.\<close>

definition create_secure_sandbox ::
  "kernel \<Rightarrow> fork_result \<Rightarrow> int \<Rightarrow> 32 word \<Rightarrow> sandbox_config option \<Rightarrow> proc \<Rightarrow> outcome \<times> bool \<times> proc" where
  "create_secure_sandbox K fk self getuid config p =
     (if config = None \<or> validate_sandbox_config getuid config = 0
      then (Returned (- errno_code EINVAL), False, p)
      else case fk of
        Fork_failed e \<Rightarrow> (Returned (- errno_code e), True, p\<lparr>errno_var := errno_code e\<rparr>)
      | Fork_returned n \<Rightarrow>
          if n = 0
          then (let (e, p1) = secure_sandbox_child K self (the config) p in (Child_ended e, True, p1))
          else (Returned (int n), True, p))"

text \<open>A concrete configuration: \<open>/bin/true\<close> as user and group 1000, no custom mounts,
  no limits, no capabilities; the same with target user 0; and the same with an empty
  program path.\<close>

definition true_config :: sandbox_config where
  "true_config = \<lparr>program = ''/bin/true'', argv = [''/bin/true''], envp = [],
     uid = 1000, gid = 1000, allowed_syscalls = [], required_caps = 0,
     limits = \<lparr>max_memory = 0, max_cpu_time = 0, max_file_size = 0, max_processes = 0,
                max_open_files = 0\<rparr>,
     mounts = (\<lambda>i. \<lparr>source = [], target = [], fstype = [], flags = 0, readonly = 0\<rparr>),
     mount_count = 0, network_access = 0, x11_access = 0\<rparr>"

definition root_config :: sandbox_config where
  "root_config = true_config\<lparr>uid := 0\<rparr>"

definition unnamed_config :: sandbox_config where
  "unnamed_config = true_config\<lparr>program := []\<rparr>"

section \<open>The earlier sandbox (phase3 secure\_sandbox.c)\<close>

text \<open>\<open>sandbox_config_t\<close>; \<open>program\<close> and \<open>chroot_dir\<close> are pointers that the code tests
  for null.\<close>

record sandbox_config_t =
  program :: "string option"
  argv :: "string list"
  envp :: "string list"
  uid :: "32 word"
  gid :: "32 word"
  chroot_dir :: "string option"
  allowed_syscalls :: "int list"
  num_syscalls :: int

definition seccomp_filter_program :: "bpf_insn list" where
  "seccomp_filter_program =
     [Load_arch, Jump_if_arch_x86_64 1 0, Ret_kill,
      Load_syscall_nr,
      Jump_if_syscall ''read'' 0 1, Ret_allow,
      Jump_if_syscall ''write'' 0 1, Ret_allow,
      Jump_if_syscall ''exit'' 0 1, Ret_allow,
      Jump_if_syscall ''exit_group'' 0 1, Ret_allow,
      Jump_if_syscall ''brk'' 0 1, Ret_allow,
      Jump_if_syscall ''mmap'' 0 1, Ret_allow,
      Jump_if_syscall ''munmap'' 0 1, Ret_allow,
      Ret_kill]"

definition perror :: "string \<Rightarrow> proc \<Rightarrow> proc" where
  "perror msg p = log_audit (Perror msg) p"

definition install_seccomp_filter :: "kernel \<Rightarrow> int list \<Rightarrow> int \<Rightarrow> proc \<Rightarrow> int \<times> proc" where
  "install_seccomp_filter K allowed n p =
     (let (ret, p1) = sys K Prctl_set_no_new_privs p in
      if ret < 0 then (- 1, perror ''prctl(PR_SET_NO_NEW_PRIVS)'' p1)
      else
        let (ret, p2) = sys K (Prctl_set_seccomp (SECCOMP_MODE_FILTER seccomp_filter_program)) p1 in
        if ret < 0 then (- 1, perror ''prctl(PR_SET_SECCOMP)'' p2)
        else (0, p2))"

definition setup_namespaces :: "kernel \<Rightarrow> proc \<Rightarrow> int \<times> proc" where
  "setup_namespaces K p =
     (let (ret, p1) = sys K (Unshare (CLONE_NEWNS OR CLONE_NEWPID OR CLONE_NEWNET OR
                                       CLONE_NEWUTS OR CLONE_NEWIPC OR CLONE_NEWUSER)) p in
      if ret < 0 then (- 1, perror ''unshare'' p1)
      else
        let (ret, p2) = sys K (Mount (Some ''proc'') ''/proc'' (Some ''proc'')
                                 (MS_NOSUID OR MS_NOEXEC OR MS_NODEV) None) p1 in
        if ret < 0 then (0, log_audit (Stderr ''Warning: Could not remount /proc'') p2)
        else (0, p2))"

text \<open>The loop \<open>for (cap = 0; cap <= 37; cap++)\<close>; a failing drop is skipped.\<close>

function capbset_loop :: "kernel \<Rightarrow> int \<Rightarrow> proc \<Rightarrow> proc" where
  "capbset_loop K cap p =
     (if cap \<le> 37 then capbset_loop K (cap + 1) (snd (sys K (Prctl_capbset_drop cap) p)) else p)"
  by pat_completeness auto
termination
  by (relation "measure (\<lambda>(K, cap, p). nat (38 - cap))") auto

definition drop_capabilities_manual :: "kernel \<Rightarrow> proc \<Rightarrow> int \<times> proc" where
  "drop_capabilities_manual K p =
     (let p1 = capbset_loop K 0 p;
          (ret, p2) = sys K Prctl_set_no_new_privs p1 in
      if ret < 0 then (- 1, perror ''prctl(PR_SET_NO_NEW_PRIVS)'' p2)
      else (0, p2))"

definition set_resource_limits :: "kernel \<Rightarrow> proc \<Rightarrow> int \<times> proc" where
  "set_resource_limits K p =
     (let (ret, p1) = sys K (Setrlimit RLIMIT_AS (512 * 1024 * 1024) (512 * 1024 * 1024)) p in
      if ret < 0 then (- 1, perror ''setrlimit(RLIMIT_AS)'' p1) else
      let (ret, p2) = sys K (Setrlimit RLIMIT_NPROC 64 64) p1 in
      if ret < 0 then (- 1, perror ''setrlimit(RLIMIT_NPROC)'' p2) else
      let (ret, p3) = sys K (Setrlimit RLIMIT_NOFILE 256 256) p2 in
      if ret < 0 then (- 1, perror ''setrlimit(RLIMIT_NOFILE)'' p3) else (0, p3))"

text \<open>The \<open>if (pid == 0)\<close> block of the phase3 \<open>create_secure_sandbox\<close>. \<open>prog\<close> is
  \<open>config->program\<close>, already known to be non-null.\<close>

definition secure_sandbox_child_phase3 ::
  "kernel \<Rightarrow> sandbox_config_t \<Rightarrow> string \<Rightarrow> proc \<Rightarrow> child_end \<times> proc" where
  "secure_sandbox_child_phase3 K config prog p =
     (let (ret, p1) = setup_namespaces K p in
      if ret < 0 then (Exited EXIT_FAILURE, log_audit (Stderr ''Failed to setup namespaces'') p1) else
      let (ret, p2) =
            (case chroot_dir config of
               None \<Rightarrow> (0 :: int, p1)
             | Some dir \<Rightarrow>
                 let (r, q) = sys K (Chroot dir) p1 in
                 if r < 0 then (- 1, perror ''chroot'' q)
                 else let (r, q) = sys K (Chdir ''/'') q in
                      if r < 0 then (- 1, perror ''chdir'' q) else (0, q)) in
      if ret < 0 then (Exited EXIT_FAILURE, p2) else
      let (ret, p3) = set_resource_limits K p2 in
      if ret < 0 then (Exited EXIT_FAILURE, log_audit (Stderr ''Failed to set resource limits'') p3) else
      let (ret, p4) = drop_capabilities_manual K p3 in
      if ret < 0 then (Exited EXIT_FAILURE, log_audit (Stderr ''Failed to drop capabilities'') p4) else
      let (ret, p5) = (if gid config > 0 then sys K (Setgid (gid config)) p4 else (0, p4)) in
      if ret < 0 then (Exited EXIT_FAILURE, perror ''setgid'' p5) else
      let (ret, p6) = (if uid config > 0 then sys K (Setuid (uid config)) p5 else (0, p5)) in
      if ret < 0 then (Exited EXIT_FAILURE, perror ''setuid'' p6) else
      let (ret, p7) = install_seccomp_filter K (allowed_syscalls config) (num_syscalls config) p6 in
      if ret < 0 then (Exited EXIT_FAILURE, log_audit (Stderr ''Failed to setup seccomp filter'') p7) else
      let (ret, p8) = sys K (Execve prog (argv config) (envp config)) p7
      in if ret < 0 then (Exited EXIT_FAILURE, perror ''execve'' p8) else (Image_replaced, p8))"

text \<open>What the parent's blocking \<open>waitpid\<close> gives: an error, or the status word.\<close>

datatype wait_status = Waitpid_failed errno | Waitpid_status int

definition WEXITSTATUS :: "int \<Rightarrow> int" where
  "WEXITSTATUS st = drop_bit 8 (st AND 0xff00)"

definition create_secure_sandbox_phase3 ::
  "kernel \<Rightarrow> fork_result \<Rightarrow> wait_status \<Rightarrow> sandbox_config_t option \<Rightarrow> proc \<Rightarrow> outcome \<times> bool \<times> proc" where
  "create_secure_sandbox_phase3 K fk wt config p =
     (case config of
        None \<Rightarrow> (Returned (- 1), False, log_audit (Stderr ''Invalid sandbox configuration'') p)
      | Some c \<Rightarrow>
         (case program c of
            None \<Rightarrow> (Returned (- 1), False, log_audit (Stderr ''Invalid sandbox configuration'') p)
          | Some prog \<Rightarrow>
             (case fk of
                Fork_failed e \<Rightarrow> (Returned (- 1), True, perror ''fork'' (p\<lparr>errno_var := errno_code e\<rparr>))
              | Fork_returned n \<Rightarrow>
                  if n = 0
                  then (let (e, p1) = secure_sandbox_child_phase3 K c prog p in (Child_ended e, True, p1))
                  else (case wt of
                          Waitpid_failed e \<Rightarrow> (Returned (- 1), True, perror ''waitpid'' (p\<lparr>errno_var := errno_code e\<rparr>))
                        | Waitpid_status st \<Rightarrow> (Returned (WEXITSTATUS st), True, p)))))"

text \<open>The configuration \<open>main\<close> of this file builds, for the program \<open>/bin/true\<close>.\<close>

definition main_config :: sandbox_config_t where
  "main_config = \<lparr>program = Some ''/bin/true'', argv = [''/bin/true''], envp = [],
     uid = 1000, gid = 1000, chroot_dir = None, allowed_syscalls = [], num_syscalls = 0\<rparr>"

section \<open>Application sandbox (app\_sandbox.c, app\_sandbox.h)\<close>

definition MAX_ALLOWED_FILES :: int where "MAX_ALLOWED_FILES = 128"
definition MAX_ALLOWED_SYSCALLS :: int where "MAX_ALLOWED_SYSCALLS = 64"

record app_sandbox_policy =
  app_name :: string
  sandbox_uid :: "32 word"
  sandbox_gid :: "32 word"
  allowed_capabilities :: "64 word"
  allowed_files :: "nat \<Rightarrow> string"
  file_count :: int
  allowed_syscalls :: "nat \<Rightarrow> int"
  syscall_count :: int
  memory_limit :: "64 word"
  cpu_limit :: "64 word"
  network_access :: int
  filesystem_access :: int
  x11_access :: int

record app_sandbox_context =
  sandbox_pid :: int
  policy :: app_sandbox_policy
  status :: int
  start_time :: int

definition audit_log_app_sandbox_event :: "string \<Rightarrow> string \<Rightarrow> int \<Rightarrow> proc \<Rightarrow> proc" where
  "audit_log_app_sandbox_event event name result p = log_audit (App_sandbox_event event name result) p"

definition validate_app_policy :: "app_sandbox_policy option \<Rightarrow> int" where
  "validate_app_policy pol =
     (case pol of
        None \<Rightarrow> - errno_code EINVAL
      | Some c \<Rightarrow>
          if app_name c = [] then - errno_code EINVAL
          else if sandbox_uid c = 0 then - errno_code EPERM
          else if memory_limit c = 0 \<or> cpu_limit c = 0 then - errno_code EINVAL
          else if file_count c > MAX_ALLOWED_FILES then - errno_code EINVAL
          else if syscall_count c > MAX_ALLOWED_SYSCALLS then - errno_code EINVAL
          else 0)"

text \<open>The loop over the allowed files; a failing bind mount is skipped.\<close>

function allowed_files_loop :: "kernel \<Rightarrow> app_sandbox_policy \<Rightarrow> int \<Rightarrow> proc \<Rightarrow> proc" where
  "allowed_files_loop K pol i p =
     (if i < file_count pol then
        allowed_files_loop K pol (i + 1)
          (snd (sys K (Mount (Some (allowed_files pol (nat i))) (allowed_files pol (nat i)) None
                         (MS_BIND OR MS_RDONLY) None) p))
      else p)"
  by pat_completeness auto
termination
  by (relation "measure (\<lambda>(K, pol, i, p). nat (file_count pol - i))") auto

definition setup_app_filesystem :: "kernel \<Rightarrow> app_sandbox_policy \<Rightarrow> proc \<Rightarrow> int \<times> proc" where
  "setup_app_filesystem K pol p =
     (let (ret, p1) = sys K (Mount None ''/'' None (MS_REC OR MS_PRIVATE) None) p in
      if ret < 0 then (- errno_var p1, p1)
      else
        let (ret, p2) = sys K (Mount (Some ''tmpfs'') ''/tmp'' (Some ''tmpfs'')
                                 (MS_NODEV OR MS_NOSUID OR MS_NOEXEC) (Some ''size=50M,mode=1777'')) p1 in
        if ret < 0 then (- errno_var p2, p2)
        else (0, allowed_files_loop K pol 0 p2))"

definition apply_app_seccomp :: "kernel \<Rightarrow> app_sandbox_policy \<Rightarrow> proc \<Rightarrow> int \<times> proc" where
  "apply_app_seccomp K pol p =
     (let (ret, p1) = sys K Prctl_set_no_new_privs p in
      if ret < 0 then (- errno_var p1, p1)
      else
        let (ret, p2) = sys K (Prctl_set_seccomp SECCOMP_MODE_STRICT) p1 in
        if ret < 0 then (- errno_var p2, p2)
        else (0, p2))"

definition apply_app_resource_limits :: "kernel \<Rightarrow> app_sandbox_policy \<Rightarrow> proc \<Rightarrow> int \<times> proc" where
  "apply_app_resource_limits K pol p =
     (let (ret, p1) = sys K (Setrlimit RLIMIT_AS (memory_limit pol) (memory_limit pol)) p in
      if ret < 0 then (- errno_var p1, p1) else
      let (ret, p2) = sys K (Setrlimit RLIMIT_CPU (cpu_limit pol) (cpu_limit pol)) p1 in
      if ret < 0 then (- errno_var p2, p2) else
      let (ret, p3) = sys K (Setrlimit RLIMIT_NOFILE 64 64) p2 in
      if ret < 0 then (- errno_var p3, p3) else
      let (ret, p4) = sys K (Setrlimit RLIMIT_NPROC 1 1) p3 in
      if ret < 0 then (- errno_var p4, p4) else (0, p4))"

text \<open>The \<open>if (pid == 0)\<close> block of \<open>create_app_sandbox\<close>.\<close>

definition app_sandbox_child ::
  "kernel \<Rightarrow> app_sandbox_policy \<Rightarrow> string \<Rightarrow> string list \<Rightarrow> proc \<Rightarrow> child_end \<times> proc" where
  "app_sandbox_child K pol app_path args p =
     (let ns_flags = CLONE_NEWNS OR CLONE_NEWPID OR CLONE_NEWUTS OR CLONE_NEWIPC;
          ns_flags = (if network_access pol = 0 then ns_flags OR CLONE_NEWNET else ns_flags);
          (ret, p1) = sys K (Unshare ns_flags) p in
      if ret < 0 then (Exited EXIT_FAILURE,
                       audit_log_app_sandbox_event ''namespace creation'' (app_name pol) (- errno_var p1) p1) else
      let (ret, p2) = setup_app_filesystem K pol p1 in
      if ret < 0 then (Exited EXIT_FAILURE, audit_log_app_sandbox_event ''filesystem setup'' (app_name pol) ret p2) else
      let (ret, p3) = apply_app_seccomp K pol p2 in
      if ret < 0 then (Exited EXIT_FAILURE, audit_log_app_sandbox_event ''seccomp setup'' (app_name pol) ret p3) else
      let (ret, p4) = secureos_cap_drop_all_except K (allowed_capabilities pol) p3 in
      if ret < 0 then (Exited EXIT_FAILURE, audit_log_app_sandbox_event ''capability drop'' (app_name pol) ret p4) else
      let (ret, p5) = apply_app_resource_limits K pol p4 in
      if ret < 0 then (Exited EXIT_FAILURE, audit_log_app_sandbox_event ''resource limits'' (app_name pol) ret p5) else
      let (ret, p6) = sys K (Setgid (sandbox_gid pol)) p5;
          (ret, p6) = (if ret < 0 then (ret, p6) else sys K (Setuid (sandbox_uid pol)) p6) in
      if ret < 0 then (Exited EXIT_FAILURE,
                       audit_log_app_sandbox_event ''user change'' (app_name pol) (- errno_var p6) p6) else
      let (ret, p7) = sys K (Setuid 0) p6 in
      if ret = 0 then (Exited EXIT_FAILURE,
                       audit_log_app_sandbox_event ''privilege check'' (app_name pol) (- errno_code EPERM) p7) else
      let p8 = audit_log_app_sandbox_event ''creation'' (app_name pol) 0 p7;
          (ret, p9) = sys K (Execv app_path args) p8
      in if ret < 0 then (Exited EXIT_FAILURE, p9) else (Image_replaced, p9))"

text \<open>\<open>create_app_sandbox\<close>. With a null policy, validation fails; \<open>policy->app_name\<close> is
  then the address of the first member of a null structure, a null pointer, which
  \<open>printf\<close> prints as \<open>(null)\<close>.\<close>

definition create_app_sandbox ::
  "kernel \<Rightarrow> fork_result \<Rightarrow> app_sandbox_policy option \<Rightarrow> string \<Rightarrow> string list \<Rightarrow> proc
     \<Rightarrow> outcome \<times> bool \<times> proc" where
  "create_app_sandbox K fk pol app_path args p =
     (let ret = validate_app_policy pol in
      if ret < 0 then
        (case pol of
           None \<Rightarrow> (Returned ret, False, audit_log_app_sandbox_event ''validation'' ''(null)'' ret p)
         | Some c \<Rightarrow> (Returned ret, False, audit_log_app_sandbox_event ''validation'' (app_name c) ret p))
      else case fk of
        Fork_failed e \<Rightarrow> (Returned (- errno_code e), True, p\<lparr>errno_var := errno_code e\<rparr>)
      | Fork_returned n \<Rightarrow>
          if n = 0
          then (let (e, p1) = app_sandbox_child K (the pol) app_path args p in (Child_ended e, True, p1))
          else (Returned (int n), True, p))"

text \<open>A concrete policy that validation accepts, and the same with both limits zero.\<close>

definition viewer_policy :: app_sandbox_policy where
  "viewer_policy = \<lparr>app_name = ''viewer'', sandbox_uid = 1000, sandbox_gid = 1000,
     allowed_capabilities = 0, allowed_files = (\<lambda>i. []), file_count = 0,
     allowed_syscalls = (\<lambda>i. 0), syscall_count = 0, memory_limit = 67108864, cpu_limit = 10,
     network_access = 0, filesystem_access = 0, x11_access = 0\<rparr>"

definition unlimited_policy :: app_sandbox_policy where
  "unlimited_policy = viewer_policy\<lparr>memory_limit := 0, cpu_limit := 0\<rparr>"

text \<open>The part of the operating system \<open>terminate_app_sandbox\<close> talks to, over a state
  \<open>'w\<close> of the process table: \<open>kill\<close> answers success or an error number; \<open>waitpid\<close> (the
  flag says \<open>WNOHANG\<close>) answers with the pid it returns, 0 when \<open>WNOHANG\<close> finds the child
  still running, or with an error, and \<open>None\<close> when the call blocks for ever; \<open>sleep\<close>
  lets time pass.\<close>

datatype wait_result = Wait_failed errno | Wait_returned int

record 'w os =
  os_kill :: "'w \<Rightarrow> int \<Rightarrow> signal \<Rightarrow> errno option \<times> 'w"
  os_waitpid :: "'w \<Rightarrow> int \<Rightarrow> bool \<Rightarrow> (wait_result \<times> 'w) option"
  os_sleep :: "nat \<Rightarrow> 'w \<Rightarrow> 'w"

text \<open>\<open>terminate_app_sandbox\<close>: the status returned, the context as the call leaves it, the
  process table and the audit lines written; \<open>None\<close> when the blocking \<open>waitpid\<close> never
  returns.\<close>

definition terminate_app_sandbox ::
  "'w os \<Rightarrow> app_sandbox_context option \<Rightarrow> 'w \<Rightarrow> (int \<times> app_sandbox_context option \<times> 'w \<times> audit_entry list) option" where
  "terminate_app_sandbox os ctx w =
     (case ctx of
        None \<Rightarrow> Some (- errno_code EINVAL, ctx, w, [])
      | Some c \<Rightarrow>
         (case os_kill os w (sandbox_pid c) SIGTERM of
            (Some e, w1) \<Rightarrow> Some (- errno_code e, ctx, w1, [])
          | (None, w1) \<Rightarrow>
             (let w2 = os_sleep os 5 w1 in
              case os_waitpid os w2 (sandbox_pid c) True of
                None \<Rightarrow> None
              | Some (r, w3) \<Rightarrow>
                 (let done = (\<lambda>w'. Some (0, Some (c\<lparr>status := 0\<rparr>), w',
                                [App_sandbox_event ''termination'' (app_name (policy c)) 0]))
                  in if r = Wait_returned 0 then
                       (let (k, w4) = os_kill os w3 (sandbox_pid c) SIGKILL in
                        case os_waitpid os w4 (sandbox_pid c) False of
                          None \<Rightarrow> None
                        | Some (r', w5) \<Rightarrow> done w5)
                     else done w3))))"

text \<open>A process table after POSIX, as far as \<open>kill\<close> and \<open>waitpid\<close> on one's own children
  go: a child is running (the flag says whether \<open>SIGTERM\<close> ends it), has exited and waits
  to be reaped, or does not exist. Signalling a process that does not exist fails with
  \<open>ESRCH\<close>; an exited child can still be signalled; waiting reaps an exited child; a
  blocking wait on a child that keeps running does not return.\<close>

datatype pstate = Running bool | Zombie | Gone

definition posix :: "(int \<Rightarrow> pstate) os" where
  "posix = \<lparr>
     os_kill = (\<lambda>w p sg.
       case w p of
         Gone \<Rightarrow> (Some ESRCH, w)
       | Zombie \<Rightarrow> (None, w)
       | Running obeys \<Rightarrow> (None, if sg = SIGKILL \<or> obeys then w(p := Zombie) else w)),
     os_waitpid = (\<lambda>w p nohang.
       case w p of
         Gone \<Rightarrow> Some (Wait_failed ECHILD, w)
       | Zombie \<Rightarrow> Some (Wait_returned p, w(p := Gone))
       | Running obeys \<Rightarrow> if nohang then Some (Wait_returned 0, w) else None),
     os_sleep = (\<lambda>secs w. w)\<rparr>"

section \<open>The claims' reading of the builders\<close>

text \<open>Issuing a list of calls in order, stopping at the first that fails and returning
  \<open>-errno\<close>: what "apply each limit, any failure is fatal" says.\<close>

fun issue_all :: "kernel \<Rightarrow> syscall list \<Rightarrow> proc \<Rightarrow> int \<times> proc" where
  "issue_all K [] p = (0, p)"
| "issue_all K (c # cs) p =
     (let (r, p1) = sys K c p in if r < 0 then (- errno_var p1, p1) else issue_all K cs p1)"

text \<open>The limits a \<open>sandbox_limits\<close> asks for: one \<open>setrlimit\<close> per non-zero field, soft and
  hard limit both the field's value; nothing for a zero field.\<close>

definition wanted_limits :: "sandbox_limits \<Rightarrow> syscall list" where
  "wanted_limits lim =
     (if max_memory lim \<noteq> 0 then [Setrlimit RLIMIT_AS (max_memory lim) (max_memory lim)] else []) @
     (if max_cpu_time lim \<noteq> 0 then [Setrlimit RLIMIT_CPU (max_cpu_time lim) (max_cpu_time lim)] else []) @
     (if max_file_size lim \<noteq> 0 then [Setrlimit RLIMIT_FSIZE (max_file_size lim) (max_file_size lim)] else []) @
     (if max_processes lim \<noteq> 0
      then [Setrlimit RLIMIT_NPROC (ucast (max_processes lim)) (ucast (max_processes lim))] else []) @
     (if max_open_files lim \<noteq> 0
      then [Setrlimit RLIMIT_NOFILE (ucast (max_open_files lim)) (ucast (max_open_files lim))] else [])"

text \<open>The limits the application sandbox sets: two from the policy, two constants.\<close>

definition app_limits :: "app_sandbox_policy \<Rightarrow> syscall list" where
  "app_limits pol =
     [Setrlimit RLIMIT_AS (memory_limit pol) (memory_limit pol),
      Setrlimit RLIMIT_CPU (cpu_limit pol) (cpu_limit pol),
      Setrlimit RLIMIT_NOFILE 64 64,
      Setrlimit RLIMIT_NPROC 1 1]"

text \<open>The stages of the isolation builder, in the order the specification gives them, and
  the stage each system call belongs to.\<close>

datatype stage = Namespaces | Mounts | Seccomp | Capabilities | Rlimits | Privdrop | Exec

fun stage_rank :: "stage \<Rightarrow> nat" where
  "stage_rank Namespaces = 0"
| "stage_rank Mounts = 1"
| "stage_rank Seccomp = 2"
| "stage_rank Capabilities = 3"
| "stage_rank Rlimits = 4"
| "stage_rank Privdrop = 5"
| "stage_rank Exec = 6"

fun stage_of :: "syscall \<Rightarrow> stage" where
  "stage_of (Unshare fl) = Namespaces"
| "stage_of (Mount src tgt fs fl dat) = Mounts"
| "stage_of (Chroot d) = Mounts"
| "stage_of (Chdir d) = Mounts"
| "stage_of Prctl_set_no_new_privs = Seccomp"
| "stage_of (Prctl_set_seccomp m) = Seccomp"
| "stage_of (Prctl_capbset_drop c) = Capabilities"
| "stage_of Capget = Capabilities"
| "stage_of (Capset a b) = Capabilities"
| "stage_of (Setrlimit res soft hard) = Rlimits"
| "stage_of (Setgid g) = Privdrop"
| "stage_of (Setuid u) = Privdrop"
| "stage_of (Execve path args env) = Exec"
| "stage_of (Execv path args) = Exec"

text \<open>The state machine of the specification: the stages run in list order, each on the
  state its predecessor left, and only if every predecessor succeeded (returned a value
  that is not negative). The result names the stage that failed, or is \<open>None\<close> when all
  have passed, the last of them being the \<open>exec\<close>.\<close>

fun builder_machine :: "(stage \<times> (proc \<Rightarrow> int \<times> proc)) list \<Rightarrow> proc \<Rightarrow> stage option \<times> proc" where
  "builder_machine [] p = (None, p)"
| "builder_machine ((s, f) # rest) p =
     (let (r, p1) = f p in if r < 0 then (Some s, p1) else builder_machine rest p1)"

text \<open>How the child ends for a result of the state machine.\<close>

fun child_end_of :: "stage option \<Rightarrow> child_end" where
  "child_end_of None = Image_replaced"
| "child_end_of (Some s) = Exited EXIT_FAILURE"

text \<open>The stage functions of the process sandbox, in the order its child calls them.\<close>

definition secure_sandbox_stages ::
  "kernel \<Rightarrow> int \<Rightarrow> sandbox_config \<Rightarrow> (stage \<times> (proc \<Rightarrow> int \<times> proc)) list" where
  "secure_sandbox_stages K self config =
     [(Namespaces, sys K (Unshare (0x00020000 OR 0x20000000 OR 0x40000000 OR
                                    0x04000000 OR 0x08000000 OR 0x10000000))),
      (Mounts, setup_sandbox_mounts K config),
      (Seccomp, apply_seccomp_filter K (sandbox_config.allowed_syscalls config)),
      (Capabilities, drop_all_capabilities_except K (required_caps config)),
      (Rlimits, apply_resource_limits K (limits config)),
      (Privdrop, change_to_sandbox_user K (sandbox_config.uid config) (sandbox_config.gid config)),
      (Exec, \<lambda>p. sys K (Execve (sandbox_config.program config) (sandbox_config.argv config)
                          (sandbox_config.envp config)) (audit_log_sandbox_success self p))]"

text \<open>The stage functions of the phase3 sandbox, in the order its child calls them: the
  namespaces, the optional change of root, the resource limits, the capability bounding
  set, the group and the user (each only when its id is positive), the seccomp filter,
  the \<open>execve\<close>.\<close>

definition phase3_stages ::
  "kernel \<Rightarrow> sandbox_config_t \<Rightarrow> string \<Rightarrow> (stage \<times> (proc \<Rightarrow> int \<times> proc)) list" where
  "phase3_stages K config prog =
     [(Namespaces, setup_namespaces K),
      (Mounts, \<lambda>p. case chroot_dir config of
                      None \<Rightarrow> (0, p)
                    | Some dir \<Rightarrow>
                        let (r, q) = sys K (Chroot dir) p in
                        if r < 0 then (- 1, perror ''chroot'' q)
                        else let (r, q) = sys K (Chdir ''/'') q in
                             if r < 0 then (- 1, perror ''chdir'' q) else (0, q)),
      (Rlimits, set_resource_limits K),
      (Capabilities, drop_capabilities_manual K),
      (Privdrop, \<lambda>p. if sandbox_config_t.gid config > 0
                      then sys K (Setgid (sandbox_config_t.gid config)) p else (0, p)),
      (Privdrop, \<lambda>p. if sandbox_config_t.uid config > 0
                      then sys K (Setuid (sandbox_config_t.uid config)) p else (0, p)),
      (Seccomp, install_seccomp_filter K (sandbox_config_t.allowed_syscalls config) (num_syscalls config)),
      (Exec, sys K (Execve prog (sandbox_config_t.argv config) (sandbox_config_t.envp config)))]"

text \<open>The stage functions of the application sandbox, in the order its child calls them;
  the privilege drop is the change of group and user followed by the attempt to regain
  user 0.\<close>

definition app_sandbox_stages ::
  "kernel \<Rightarrow> app_sandbox_policy \<Rightarrow> string \<Rightarrow> string list \<Rightarrow> (stage \<times> (proc \<Rightarrow> int \<times> proc)) list" where
  "app_sandbox_stages K pol app_path args =
     [(Namespaces, let ns_flags = CLONE_NEWNS OR CLONE_NEWPID OR CLONE_NEWUTS OR CLONE_NEWIPC;
                       ns_flags = (if app_sandbox_policy.network_access pol = 0
                                   then ns_flags OR CLONE_NEWNET else ns_flags)
                   in sys K (Unshare ns_flags)),
      (Mounts, setup_app_filesystem K pol),
      (Seccomp, apply_app_seccomp K pol),
      (Capabilities, secureos_cap_drop_all_except K (allowed_capabilities pol)),
      (Rlimits, apply_app_resource_limits K pol),
      (Privdrop, \<lambda>p. let (r, q) = sys K (Setgid (sandbox_gid pol)) p
                      in if r < 0 then (r, q) else sys K (Setuid (sandbox_uid pol)) q),
      (Privdrop, \<lambda>p. let (r, q) = sys K (Setuid 0) p
                      in if r = 0 then (- errno_code EPERM, q) else (0, q)),
      (Exec, \<lambda>p. sys K (Execv app_path args)
                     (audit_log_app_sandbox_event ''creation'' (app_name pol) 0 p))]"

text \<open>The calls of a trace are in the order of the specification's stages.\<close>

definition pipeline_ordered :: "syscall list \<Rightarrow> bool" where
  "pipeline_ordered tr = sorted (map (\<lambda>c. stage_rank (stage_of c)) tr)"

text \<open>A stage function emits calls of one stage only.\<close>

definition emits :: "stage \<Rightarrow> (proc \<Rightarrow> int \<times> proc) \<Rightarrow> bool" where
  "emits s f = (\<forall>p. \<exists>new. calls (snd (f p)) = calls p @ new \<and> (\<forall>c\<in>set new. stage_of c = s))"

text \<open>A concrete instance for \<open>terminate_app_sandbox\<close>: the context of a sandbox with process
  id 4242, a process table in which that child has exited and not yet been reaped, and the
  table with no process at all.\<close>

definition viewer_context :: app_sandbox_context where
  "viewer_context = \<lparr>sandbox_pid = 4242, policy = viewer_policy, status = 1, start_time = 0\<rparr>"

definition exited_child :: "int \<Rightarrow> pstate" where
  "exited_child p = (if p = 4242 then Zombie else Gone)"

definition no_process :: "int \<Rightarrow> pstate" where
  "no_process p = Gone"

section \<open>Error numbers are positive\<close>

lemma errno_code_pos: "0 < errno_code e"
  using Rep_errno [of e] by (simp add: errno_code_def)

lemma errno_code_Abs: "0 < n \<Longrightarrow> errno_code (Abs_errno n) = n"
  by (simp add: errno_code_def Abs_errno_inverse)

lemma errno_code_EINVAL: "errno_code EINVAL = 22"
  by (simp add: EINVAL_def errno_code_Abs)

lemma errno_code_nonzero: "errno_code e \<noteq> 0"
  using errno_code_pos [of e] by simp

lemma neg_errno_code_negative: "- errno_code e < 0"
  using errno_code_pos [of e] by simp

section \<open>Properties of the security monitor\<close>

lemma strstr_sublist: "(strstr hay needle \<noteq> None) = sublist needle hay"
  by (induction hay) (auto simp: sublist_Cons_right)

lemma match_rule_pattern_sublist: "match_rule_pattern pat hay = sublist pat hay"
  unfolding match_rule_pattern_def by (rule strstr_sublist)

declare rules_loop.simps [simp del]
declare events_loop.simps [simp del]
declare custom_mounts_loop.simps [simp del]
declare capbset_loop.simps [simp del]
declare allowed_files_loop.simps [simp del]

lemma rules_loop_eq:
  "0 \<le> j \<Longrightarrow> rules_loop s e j (n, lg) =
     (n + int (length (filter (\<lambda>r. rule_matches r e) (map (rules s) [nat j..<nat (rule_count s)]))),
      lg @ concat (map (\<lambda>r. action_log r e) (filter (\<lambda>r. rule_matches r e) (map (rules s) [nat j..<nat (rule_count s)]))))"
proof (induction "nat (rule_count s - j)" arbitrary: j n lg)
  case 0
  then have "\<not> j < rule_count s" by simp
  then show ?case by (simp add: rules_loop.simps)
next
  case (Suc k)
  then have lt: "j < rule_count s" by linarith
  from Suc.prems lt have up: "[nat j..<nat (rule_count s)] = nat j # [nat (j + 1)..<nat (rule_count s)]"
    by (simp add: upt_conv_Cons nat_add_distrib)
  from Suc.hyps(2) have k: "k = nat (rule_count s - (j + 1))" by linarith
  from Suc.prems have j1: "0 \<le> j + 1" by simp
  note IH = Suc.hyps(1) [OF k j1]
  show ?case
    by (subst rules_loop.simps) (simp add: lt Let_def up IH rule_matches_def match_rule_pattern_sublist)
qed

lemma events_loop_eq:
  "0 \<le> i \<Longrightarrow> events_loop s i (n, lg) =
     (n + int (length (concat (map (\<lambda>e. map (Pair e) (filter (\<lambda>r. rule_matches r e) (loaded_rules s)))
            (map (events s) [nat i..<nat (event_count s)])))),
      lg @ concat (map (\<lambda>(e, r). action_log r e) (concat (map (\<lambda>e. map (Pair e) (filter (\<lambda>r. rule_matches r e) (loaded_rules s)))
            (map (events s) [nat i..<nat (event_count s)])))))"
proof (induction "nat (event_count s - i)" arbitrary: i n lg)
  case 0
  then have "\<not> i < event_count s" by simp
  then show ?case by (simp add: events_loop.simps)
next
  case (Suc k)
  then have lt: "i < event_count s" by linarith
  from Suc.prems lt have up: "[nat i..<nat (event_count s)] = nat i # [nat (i + 1)..<nat (event_count s)]"
    by (simp add: upt_conv_Cons nat_add_distrib)
  from Suc.hyps(2) have k: "k = nat (event_count s - (i + 1))" by linarith
  from Suc.prems have i1: "0 \<le> i + 1" by simp
  note IH = Suc.hyps(1) [OF k i1]
  have inner: "map ((\<lambda>(e, r). action_log r e) \<circ> Pair x) rs = map (\<lambda>r. action_log r x) rs" for x rs
    by simp
  show ?case
    by (subst events_loop.simps)
       (simp add: lt up rules_loop_eq IH loaded_rules_def comp_def)
qed

text \<open>
  Claim C9. \<open>process_security_events\<close> on an initialised monitor evaluates every loaded rule
  against every buffered event, events in arrival order and rules in table order for each
  event. A rule matches an event exactly when it is enabled, its event type equals the
  event's type and its pattern is a substring of the event's detail text. A match does not
  end the inner loop, so the returned count is the number of all (event, rule) matches, and
  the log receives the entries of all matches in that order. (Uninitialised, the function
  returns \<open>-EINVAL\<close> and touches nothing.)
\<close>

theorem process_security_events_counts_all_matches:
  "process_security_events s =
     (if monitor_initialized s
      then (int (length (matching_pairs s)),
            s\<lparr>syslog := syslog s @ concat (map (\<lambda>(e, r). action_log r e) (matching_pairs s))\<rparr>)
      else (- errno_code EINVAL, s))"
  by (simp add: process_security_events_def events_loop_eq matching_pairs_def buffered_events_def)


lemma process_keeps_events:
  "event_count (snd (process_security_events s)) = event_count s
   \<and> events (snd (process_security_events s)) = events s
   \<and> monitor_initialized (snd (process_security_events s)) = monitor_initialized s"
  by (simp add: process_security_events_def split: prod.splits)

lemma check_keeps_events:
  "event_count (snd (check_security_violations s)) = event_count s
   \<and> events (snd (check_security_violations s)) = events s
   \<and> monitor_initialized (snd (check_security_violations s)) = monitor_initialized s"
  by (simp add: check_security_violations_def split: prod.splits)

lemma load_loop_keeps_events:
  "event_count (load_loop lns s) = event_count s
   \<and> events (load_loop lns s) = events s
   \<and> monitor_initialized (load_loop lns s) = monitor_initialized s"
  by (induction lns arbitrary: s) (simp_all add: Let_def)

lemma load_keeps_events:
  "event_count (snd (load_security_rules file s)) = event_count s
   \<and> events (snd (load_security_rules file s)) = events s
   \<and> monitor_initialized (snd (load_security_rules file s)) = monitor_initialized s"
  by (simp add: load_security_rules_def load_loop_keeps_events Let_def split: rules_file.splits)

lemma event_count_add:
  "event_count (snd (snd (add_security_event now event s))) =
     (if monitor_initialized s \<and> event \<noteq> None \<and> event_count s < MAX_EVENTS
      then event_count s + 1 else event_count s)
   \<and> monitor_initialized (snd (snd (add_security_event now event s))) = monitor_initialized s"
  by (auto simp: add_security_event_def Let_def split: option.splits)

lemma reachable_event_count:
  "reachable s \<Longrightarrow> 0 \<le> event_count s \<and> event_count s \<le> MAX_EVENTS
     \<and> (\<not> monitor_initialized s \<longrightarrow> event_count s = 0)"
proof (induction rule: reachable.induct)
  case start
  show ?case by (simp add: initial_monitor_def MAX_EVENTS_def)
next
  case (init s)
  then show ?case by (simp add: init_security_monitor_def MAX_EVENTS_def)
next
  case (add s now event)
  then show ?case by (simp add: event_count_add)
next
  case (load s rf)
  then show ?case by (simp add: load_keeps_events)
next
  case (process s)
  then show ?case by (simp add: process_keeps_events)
next
  case (check s)
  then show ?case by (simp add: check_keeps_events)
qed

lemma load_loop_rule_count:
  "0 \<le> rule_count s \<Longrightarrow> rule_count s \<le> MAX_RULES
     \<Longrightarrow> 0 \<le> rule_count (load_loop lns s) \<and> rule_count (load_loop lns s) \<le> MAX_RULES"
  by (induction lns arbitrary: s) (simp_all add: Let_def)

text \<open>
  Claim C10. The event buffer is bounded and append-only. In any state the monitor can
  reach by its five operations, \<open>add_security_event\<close> returns \<open>-EINVAL\<close> and changes
  nothing when the monitor is uninitialised, the event pointer is null, or \<open>event_count\<close>
  has reached \<open>MAX_EVENTS\<close>. Otherwise it returns 0, writes the event (its timestamp
  filled in when it was 0) at index \<open>event_count\<close>, which lies inside the array, leaves
  every other slot as it was, and adds one to \<open>event_count\<close>. Either way
  \<open>0 \<le> event_count \<le> MAX_EVENTS\<close> holds afterwards. The other four operations leave
  every stored event as it was.
\<close>

theorem add_security_event_bounded_append:
  assumes "reachable s" and "add_security_event now event s = (r, event', s')"
  shows "(if \<not> monitor_initialized s \<or> event = None \<or> MAX_EVENTS \<le> event_count s
          then r = - errno_code EINVAL \<and> event' = event \<and> s' = s
          else r = 0 \<and> event_count s' = event_count s + 1
             \<and> nat (event_count s) < nat MAX_EVENTS
             \<and> event' = Some (if timestamp (the event) = 0 then (the event)\<lparr>timestamp := now\<rparr> else the event)
             \<and> events s' (nat (event_count s)) = (if timestamp (the event) = 0 then (the event)\<lparr>timestamp := now\<rparr> else the event)
             \<and> (\<forall>i. i \<noteq> nat (event_count s) \<longrightarrow> events s' i = events s i))
         \<and> 0 \<le> event_count s' \<and> event_count s' \<le> MAX_EVENTS \<and> reachable s'
         \<and> (\<forall>i. i < nat (event_count s) \<longrightarrow>
               events (snd (init_security_monitor s)) i = events s i
             \<and> events (snd (load_security_rules file s)) i = events s i
             \<and> events (snd (process_security_events s)) i = events s i
             \<and> events (snd (check_security_violations s)) i = events s i)"
proof -
  have inv: "0 \<le> event_count s \<and> event_count s \<le> MAX_EVENTS
      \<and> (\<not> monitor_initialized s \<longrightarrow> event_count s = 0)"
    using assms(1) by (rule reachable_event_count)
  have s': "s' = snd (snd (add_security_event now event s))"
    using assms(2) by simp
  have r': "reachable s'"
    unfolding s' using assms(1) by (rule reachable.add)
  have inv': "0 \<le> event_count s' \<and> event_count s' \<le> MAX_EVENTS"
    using reachable_event_count [OF r'] by simp
  have main: "if \<not> monitor_initialized s \<or> event = None \<or> MAX_EVENTS \<le> event_count s
          then r = - errno_code EINVAL \<and> event' = event \<and> s' = s
          else r = 0 \<and> event_count s' = event_count s + 1
             \<and> nat (event_count s) < nat MAX_EVENTS
             \<and> event' = Some (if timestamp (the event) = 0 then (the event)\<lparr>timestamp := now\<rparr> else the event)
             \<and> events s' (nat (event_count s)) = (if timestamp (the event) = 0 then (the event)\<lparr>timestamp := now\<rparr> else the event)
             \<and> (\<forall>i. i \<noteq> nat (event_count s) \<longrightarrow> events s' i = events s i)"
    using assms(2) inv
    by (auto simp: add_security_event_def Let_def split: option.splits if_splits)
  have init: "\<forall>i. i < nat (event_count s) \<longrightarrow> events (snd (init_security_monitor s)) i = events s i"
    using inv by (cases "monitor_initialized s") (simp_all add: init_security_monitor_def)
  have others: "\<forall>i. i < nat (event_count s) \<longrightarrow>
               events (snd (init_security_monitor s)) i = events s i
             \<and> events (snd (load_security_rules file s)) i = events s i
             \<and> events (snd (process_security_events s)) i = events s i
             \<and> events (snd (check_security_violations s)) i = events s i"
    using init by (simp add: load_keeps_events process_keeps_events check_keeps_events)
  from main inv' r' others show ?thesis by blast
qed

lemma armed_monitor_facts:
  "monitor_initialized armed_monitor \<and> rule_count armed_monitor = 1 \<and> event_count armed_monitor = 0"
  by (simp add: armed_monitor_def load_security_rules_def privilege_rule_file_def
      init_security_monitor_def initial_monitor_def MAX_RULES_def Let_def)

lemma reachable_armed_monitor: "reachable armed_monitor"
  unfolding armed_monitor_def
  by (rule reachable.load [OF reachable.init [OF reachable.start]])

lemma reachable_filled_monitor: "reachable (filled_monitor n)"
  by (induction n) (simp_all add: reachable_armed_monitor reachable.add)

lemma add_keeps_rule_count:
  "rule_count (snd (snd (add_security_event now event s))) = rule_count s"
  by (auto simp: add_security_event_def Let_def split: option.splits)

lemma filled_monitor_facts:
  "monitor_initialized (filled_monitor n) \<and> rule_count (filled_monitor n) = 1"
  by (induction n) (simp_all add: armed_monitor_facts event_count_add add_keeps_rule_count)

lemma event_count_filled_monitor:
  "n \<le> 10000 \<Longrightarrow> event_count (filled_monitor n) = int n"
  by (induction n)
     (simp_all add: armed_monitor_facts event_count_add filled_monitor_facts MAX_EVENTS_def)

text \<open>The theorem applied twice, to monitors with one rule loaded: once with one event
  stored, where the second event goes to slot 1 and slot 0 keeps its event; and once
  with the buffer full, where the call is refused and nothing changes.\<close>

theorem add_security_event_bounded_append_witness:
  "reachable (filled_monitor 1) \<and> rule_count (filled_monitor 1) = 1
   \<and> event_count (filled_monitor 1) = 1
   \<and> fst (add_security_event 43 (Some escalation_event) (filled_monitor 1)) = 0
   \<and> event_count (snd (snd (add_security_event 43 (Some escalation_event) (filled_monitor 1)))) = 2
   \<and> events (snd (snd (add_security_event 43 (Some escalation_event) (filled_monitor 1)))) 1
       = escalation_event\<lparr>timestamp := 43\<rparr>
   \<and> events (snd (snd (add_security_event 43 (Some escalation_event) (filled_monitor 1)))) 0
       = events (filled_monitor 1) 0
   \<and> reachable (filled_monitor 10000)
   \<and> event_count (filled_monitor 10000) = MAX_EVENTS
   \<and> add_security_event 43 (Some escalation_event) (filled_monitor 10000)
       = (- errno_code EINVAL, Some escalation_event, filled_monitor 10000)"
proof -
  let ?a = "add_security_event 43 (Some escalation_event) (filled_monitor 1)"
  let ?b = "add_security_event 43 (Some escalation_event) (filled_monitor 10000)"
  have r1: "reachable (filled_monitor 1)" and r2: "reachable (filled_monitor 10000)"
    by (rule reachable_filled_monitor)+
  have c1: "event_count (filled_monitor 1) = 1"
    using event_count_filled_monitor [of 1] by simp
  have c2: "event_count (filled_monitor 10000) = MAX_EVENTS"
    using event_count_filled_monitor [of 10000] by (simp add: MAX_EVENTS_def)
  have i1: "monitor_initialized (filled_monitor 1)" "rule_count (filled_monitor 1) = 1"
    and i2: "monitor_initialized (filled_monitor 10000)"
    using filled_monitor_facts [of 1] filled_monitor_facts [of 10000] by blast+
  have e1: "?a = (fst ?a, fst (snd ?a), snd (snd ?a))" and e2: "?b = (fst ?b, fst (snd ?b), snd (snd ?b))"
    by simp_all
  have ts: "timestamp escalation_event = 0" by (simp add: escalation_event_def)
  from add_security_event_bounded_append [OF r1 e1] i1 c1 ts
  have a: "fst ?a = 0" "event_count (snd (snd ?a)) = 2"
    "events (snd (snd ?a)) 1 = escalation_event\<lparr>timestamp := 43\<rparr>"
    "\<forall>i. i \<noteq> 1 \<longrightarrow> events (snd (snd ?a)) i = events (filled_monitor 1) i"
    by (simp_all add: MAX_EVENTS_def)
  from a(4) have a0: "events (snd (snd ?a)) 0 = events (filled_monitor 1) 0" by simp
  from add_security_event_bounded_append [OF r2 e2] i2 c2
  have b: "fst ?b = - errno_code EINVAL" "fst (snd ?b) = Some escalation_event"
    "snd (snd ?b) = filled_monitor 10000"
    by simp_all
  then have b': "?b = (- errno_code EINVAL, Some escalation_event, filled_monitor 10000)"
    by (metis e2)
  from r1 i1(2) c1 a(1,2,3) a0 r2 c2 b' show ?thesis by simp
qed

section \<open>Facts about issuing system calls\<close>

lemma sys_ret: "fst (sys K c p) = (if K (calls p) c = None then 0 else - 1)"
  by (simp add: sys_def split: option.splits)

lemma sys_calls: "calls (snd (sys K c p)) = calls p @ [c]"
  by (simp add: sys_def split: option.splits)

lemma sys_neg: "(fst (sys K c p) < 0) = (K (calls p) c \<noteq> None)"
  by (simp add: sys_ret)

lemma sys_neg_errno:
  "K (calls p) c = Some e \<Longrightarrow> sys K c p = (- 1, p\<lparr>calls := calls p @ [c], errno_var := errno_code e\<rparr>)"
  by (simp add: sys_def)

lemma sys_ok: "K (calls p) c = None \<Longrightarrow> sys K c p = (0, p\<lparr>calls := calls p @ [c]\<rparr>)"
  by (simp add: sys_def)

section \<open>Properties of the capability controller\<close>

lemma sys_cases:
  "sys K c p = (r, p') \<Longrightarrow>
     calls p' = calls p @ [c] \<and> audit p' = audit p \<and>
     ((r = 0 \<and> K (calls p) c = None \<and> errno_var p' = errno_var p) \<or>
      (r = - 1 \<and> (\<exists>e. K (calls p) c = Some e \<and> errno_var p' = errno_code e)))"
  by (auto simp: sys_def split: option.splits)

lemma low32_mask: "(0xFFFFFFFF :: 64 word) = mask 32"
  by (simp add: mask_eq_exp_minus_1)

lemma small_word_high_bits:
  assumes "\<not> (w :: 64 word) > 0xFFFFFFFF"
  shows "\<not> bit w (n + 32)"
proof -
  from assms have "unat w \<le> 4294967295" by (simp add: word_less_nat_alt not_less)
  then have "w < 2 ^ 32" by (simp add: word_less_nat_alt)
  then have "w AND mask 32 = w" by (rule less_mask_eq)
  then have "bit w (n + 32) = bit (w AND mask 32) (n + 32)" by simp
  also have "\<dots> = False" by (simp add: bit_simps)
  finally show ?thesis by simp
qed

lemma required_cap_words_bits:
  assumes "required_cap_words req = (caps0, caps1)"
  shows "cap_in effective caps0 caps1 cap = (cap < 64 \<and> bit req cap)"
    and "cap_in permitted caps0 caps1 cap = (cap < 64 \<and> bit req cap)"
    and "\<not> cap_in inheritable caps0 caps1 cap"
proof -
  have hi: "bit req cap = bit req ((cap - 32) + 32)" if "\<not> cap < 32"
    using that by simp
  consider (zero) "req = 0" | (low) "req \<noteq> 0" "\<not> req > 0xFFFFFFFF" | (high) "req > 0xFFFFFFFF"
    by blast
  then have "cap_in effective caps0 caps1 cap = (cap < 64 \<and> bit req cap)
      \<and> cap_in permitted caps0 caps1 cap = (cap < 64 \<and> bit req cap)
      \<and> \<not> cap_in inheritable caps0 caps1 cap"
  proof cases
    case zero
    with assms show ?thesis
      by (auto simp: required_cap_words_def zero_caps_def cap_in_def)
  next
    case low
    from low(2) have "\<not> bit req ((cap - 32) + 32)" by (rule small_word_high_bits)
    with low assms hi show ?thesis
      by (auto simp: required_cap_words_def zero_caps_def cap_in_def Let_def low32_mask bit_simps)
  next
    case high
    then have "req \<noteq> 0" by auto
    with high assms show ?thesis
      by (auto simp: required_cap_words_def zero_caps_def cap_in_def Let_def low32_mask bit_simps)
  qed
  then show "cap_in effective caps0 caps1 cap = (cap < 64 \<and> bit req cap)"
    and "cap_in permitted caps0 caps1 cap = (cap < 64 \<and> bit req cap)"
    and "\<not> cap_in inheritable caps0 caps1 cap" by simp_all
qed

text \<open>
  Claim C5. \<open>secureos_cap_drop_all_except\<close> reads the current set (\<open>capget\<close>), zeroes both
  capability words and passes to \<open>capset\<close> exactly the requested bits as effective and as
  permitted, with inheritable zero. Whenever it returns 0, both calls were issued in that
  order and succeeded, and in the set handed to the kernel a capability is effective
  (permitted) exactly when its bit is in the requested set; no capability is inheritable.
\<close>

theorem drop_all_except_sets_exactly_required:
  assumes "secureos_cap_drop_all_except K req p = (r, p')" and "r = 0"
  shows "\<exists>caps0 caps1.
           calls p' = calls p @ [Capget, Capset caps0 caps1]
         \<and> K (calls p) Capget = None
         \<and> K (calls p @ [Capget]) (Capset caps0 caps1) = None
         \<and> (\<forall>cap. cap_in effective caps0 caps1 cap = (cap < 64 \<and> bit req cap))
         \<and> (\<forall>cap. cap_in permitted caps0 caps1 cap = (cap < 64 \<and> bit req cap))
         \<and> (\<forall>cap. \<not> cap_in inheritable caps0 caps1 cap)"
proof -
  obtain caps0 caps1 where w: "required_cap_words req = (caps0, caps1)"
    by (cases "required_cap_words req")
  obtain r1 p1 where g: "sys K Capget p = (r1, p1)"
    by (cases "sys K Capget p")
  note g' = sys_cases [OF g]
  have ok: "\<not> r1 < 0"
  proof
    assume "r1 < 0"
    with assms g g' have "r = - errno_var p1"
      by (auto simp: secureos_cap_drop_all_except_def secureos_cap_get_proc_def errno_code_pos)
    moreover have "errno_var p1 \<noteq> 0" using g' \<open>r1 < 0\<close> by (auto simp: errno_code_nonzero)
    ultimately show False using assms(2) by simp
  qed
  with assms g w have s: "sys K (Capset caps0 caps1) p1 = (r, p')"
    by (simp add: secureos_cap_drop_all_except_def secureos_cap_get_proc_def secureos_cap_set_proc_def)
  note s' = sys_cases [OF s]
  from g' ok have "K (calls p) Capget = None" "calls p1 = calls p @ [Capget]" by auto
  moreover from s' assms(2) \<open>calls p1 = calls p @ [Capget]\<close>
  have "K (calls p @ [Capget]) (Capset caps0 caps1) = None" "calls p' = calls p @ [Capget, Capset caps0 caps1]"
    by auto
  ultimately show ?thesis
    using required_cap_words_bits [OF w] by blast
qed


text \<open>The theorem applied to a request for capabilities 10 and 32, one in each word, on a
  kernel that lets every call succeed.\<close>

theorem drop_all_except_sets_exactly_required_witness:
  "fst (secureos_cap_drop_all_except accepting 0x100000400 fresh_proc) = 0
   \<and> (\<exists>caps0 caps1.
         calls (snd (secureos_cap_drop_all_except accepting 0x100000400 fresh_proc))
           = [Capget, Capset caps0 caps1]
       \<and> (\<forall>cap. cap_in effective caps0 caps1 cap = (cap < 64 \<and> bit (0x100000400 :: 64 word) cap))
       \<and> (\<forall>cap. cap_in permitted caps0 caps1 cap = (cap < 64 \<and> bit (0x100000400 :: 64 word) cap))
       \<and> (\<forall>cap. \<not> cap_in inheritable caps0 caps1 cap))"
proof -
  let ?run = "secureos_cap_drop_all_except accepting 0x100000400 fresh_proc"
  have e: "?run = (fst ?run, snd ?run)" by simp
  have r: "fst ?run = 0"
    by (simp add: secureos_cap_drop_all_except_def secureos_cap_get_proc_def
        secureos_cap_set_proc_def sys_def accepting_def split: prod.splits)
  show ?thesis
    using r drop_all_except_sets_exactly_required [OF e r] by (simp add: fresh_proc_def accepting_def)
qed

section \<open>Properties of the seccomp stage\<close>

text \<open>
  Claim C2. In each of the three functions that install seccomp (\<open>apply_seccomp_filter\<close>,
  the phase3 \<open>install_seccomp_filter\<close>, \<open>apply_app_seccomp\<close>), the first call is
  \<open>prctl(PR_SET_NO_NEW_PRIVS)\<close>; the seccomp call follows it directly, with nothing in
  between, and is issued only when the kernel accepted \<open>PR_SET_NO_NEW_PRIVS\<close>. When that
  call fails, the function issues nothing more.
\<close>

theorem no_new_privs_immediately_before_seccomp:
  "calls (snd (apply_seccomp_filter K a p)) =
     calls p @ (if K (calls p) Prctl_set_no_new_privs = None
                then [Prctl_set_no_new_privs, Prctl_set_seccomp SECCOMP_MODE_STRICT]
                else [Prctl_set_no_new_privs])
   \<and> calls (snd (install_seccomp_filter K b n p)) =
     calls p @ (if K (calls p) Prctl_set_no_new_privs = None
                then [Prctl_set_no_new_privs, Prctl_set_seccomp (SECCOMP_MODE_FILTER seccomp_filter_program)]
                else [Prctl_set_no_new_privs])
   \<and> calls (snd (apply_app_seccomp K pol p)) =
     calls p @ (if K (calls p) Prctl_set_no_new_privs = None
                then [Prctl_set_no_new_privs, Prctl_set_seccomp SECCOMP_MODE_STRICT]
                else [Prctl_set_no_new_privs])"
  by (auto simp: apply_seccomp_filter_def install_seccomp_filter_def apply_app_seccomp_def
        sys_def perror_def log_audit_def split: option.splits)


section \<open>Properties of the resource-limit stage\<close>

lemma apply_resource_limits_issue:
  "apply_resource_limits K lim p = issue_all K (wanted_limits lim) p"
  by (simp add: apply_resource_limits_def wanted_limits_def word_gt_0 Let_def split: prod.splits)

lemma apply_app_resource_limits_issue:
  "apply_app_resource_limits K pol p = issue_all K (app_limits pol) p"
  by (simp add: apply_app_resource_limits_def app_limits_def Let_def split: prod.splits)


lemma issue_all_nonpos: "fst (issue_all K cs p) \<le> 0"
proof (induction cs arbitrary: p)
  case Nil
  show ?case by simp
next
  case (Cons c cs)
  show ?case
  proof (cases "K (calls p) c")
    case None
    then show ?thesis using Cons.IH by (simp add: sys_ok)
  next
    case (Some e)
    then show ?thesis using errno_code_pos [of e] by (simp add: sys_neg_errno)
  qed
qed

lemma issue_all_zero_iff:
  "(fst (issue_all K cs p) = 0) = (\<forall>i<length cs. K (calls p @ take i cs) (cs ! i) = None)"
proof (induction cs arbitrary: p)
  case Nil
  show ?case by simp
next
  case (Cons c cs)
  show ?case
  proof (cases "K (calls p) c")
    case None
    have "(\<forall>i<length (c # cs). K (calls p @ take i (c # cs)) ((c # cs) ! i) = None)
        = (\<forall>i<length cs. K (calls p @ c # take i cs) (cs ! i) = None)"
      using None by (auto simp: less_Suc_eq_0_disj)
    then show ?thesis using None Cons.IH [of "p\<lparr>calls := calls p @ [c]\<rparr>"]
      by (simp add: sys_ok)
  next
    case (Some e)
    then have "\<not> (\<forall>i<length (c # cs). K (calls p @ take i (c # cs)) ((c # cs) ! i) = None)"
      by (auto intro: exI [of _ 0])
    then show ?thesis using Some errno_code_nonzero [of e] by (simp add: sys_neg_errno)
  qed
qed

lemma issue_all_calls:
  "\<exists>n\<le>length cs. calls (snd (issue_all K cs p)) = calls p @ take n cs"
proof (induction cs arbitrary: p)
  case Nil
  show ?case by simp
next
  case (Cons c cs)
  show ?case
  proof (cases "K (calls p) c")
    case None
    from Cons.IH [of "p\<lparr>calls := calls p @ [c]\<rparr>"]
    obtain n where "n \<le> length cs"
      "calls (snd (issue_all K cs (p\<lparr>calls := calls p @ [c]\<rparr>))) = calls p @ c # take n cs"
      by auto
    then show ?thesis using None by (intro exI [of _ "Suc n"]) (simp add: sys_ok)
  next
    case (Some e)
    then show ?thesis by (intro exI [of _ 1]) (simp add: sys_neg_errno)
  qed
qed

text \<open>
  Claim C6, as amended. \<open>apply_resource_limits\<close> of the process sandbox issues one
  \<open>setrlimit\<close> for each of the five limits (address space, CPU time, file size, process
  count, open files) whose field is non-zero, in that order, with soft and hard limit both
  the field's value, and none for a zero field; the first failure ends the stage with
  \<open>-errno\<close>. \<open>apply_app_resource_limits\<close> of the application sandbox issues four calls
  whatever the policy says: address space and CPU time from the policy's two fields, then
  64 open files and 1 process; it never limits the file size; the first failure ends the
  stage with \<open>-errno\<close>.
\<close>

theorem resource_limits_applied:
  "apply_resource_limits K lim p = issue_all K (wanted_limits lim) p
   \<and> apply_app_resource_limits K pol p = issue_all K (app_limits pol) p"
  by (simp add: apply_resource_limits_issue apply_app_resource_limits_issue)

text \<open>
  The claim as stated fails on \<open>apply_app_resource_limits\<close>: for a policy that validation
  accepts it sets the open-file and process limits to constants that no policy field
  holds and sets no file-size limit, and a zero field is applied as a limit of 0 rather
  than skipped.
\<close>

theorem app_resource_limits_counterexample:
  "validate_app_policy (Some viewer_policy) = 0
   \<and> calls (snd (apply_app_resource_limits accepting viewer_policy fresh_proc))
      = [Setrlimit RLIMIT_AS 67108864 67108864, Setrlimit RLIMIT_CPU 10 10,
         Setrlimit RLIMIT_NOFILE 64 64, Setrlimit RLIMIT_NPROC 1 1]
   \<and> calls (snd (apply_app_resource_limits accepting unlimited_policy fresh_proc))
      = [Setrlimit RLIMIT_AS 0 0, Setrlimit RLIMIT_CPU 0 0,
         Setrlimit RLIMIT_NOFILE 64 64, Setrlimit RLIMIT_NPROC 1 1]"
  by (simp add: validate_app_policy_def apply_app_resource_limits_def sys_def
      MAX_ALLOWED_FILES_def MAX_ALLOWED_SYSCALLS_def viewer_policy_def unlimited_policy_def
      accepting_def fresh_proc_def)

section \<open>Properties of the builder pipelines\<close>

lemma secure_sandbox_child_refines:
  "fst (secure_sandbox_child K self config p)
     = child_end_of (fst (builder_machine (secure_sandbox_stages K self config) p))
   \<and> calls (snd (secure_sandbox_child K self config p))
     = calls (snd (builder_machine (secure_sandbox_stages K self config) p))"
  by (simp add: secure_sandbox_child_def secure_sandbox_stages_def Let_def
      audit_log_sandbox_failure_def log_audit_def split: prod.splits)

lemma phase3_child_refines:
  "fst (secure_sandbox_child_phase3 K config prog p)
     = child_end_of (fst (builder_machine (phase3_stages K config prog) p))
   \<and> calls (snd (secure_sandbox_child_phase3 K config prog p))
     = calls (snd (builder_machine (phase3_stages K config prog) p))"
  by (simp add: secure_sandbox_child_phase3_def phase3_stages_def Let_def
      perror_def log_audit_def split: prod.splits)


lemma emitsI:
  assumes "\<And>p. \<exists>new. calls (snd (f p)) = calls p @ new \<and> (\<forall>c\<in>set new. stage_of c = s)"
  shows "emits s f"
  using assms by (simp add: emits_def)

lemma emits_sys: "stage_of c = s \<Longrightarrow> emits s (sys K c)"
  by (rule emitsI) (simp add: sys_calls)

lemma custom_mounts_loop_calls:
  "\<exists>new. calls (snd (custom_mounts_loop K config i p)) = calls p @ new
         \<and> (\<forall>c\<in>set new. stage_of c = Mounts)"
proof (induction K config i p rule: custom_mounts_loop.induct)
  case (1 K config i p)
  show ?case
  proof (cases "i < mount_count config")
    case False
    then show ?thesis by (subst custom_mounts_loop.simps) simp
  next
    case True
    let ?m = "mounts config (nat i)"
    let ?c = "Mount (Some (source ?m)) (target ?m) (Some (fstype ?m))
                (if readonly ?m \<noteq> 0 then flags ?m OR MS_RDONLY else flags ?m) None"
    show ?thesis
    proof (cases "K (calls p) ?c")
      case (Some e)
      with True show ?thesis
        by (subst custom_mounts_loop.simps) (simp add: sys_neg_errno Let_def)
    next
      case None
      from "1.IH" [OF True refl refl, of "(0, p\<lparr>calls := calls p @ [?c]\<rparr>)" 0 "p\<lparr>calls := calls p @ [?c]\<rparr>"] None
      obtain new where
        "calls (snd (custom_mounts_loop K config (i + 1) (p\<lparr>calls := calls p @ [?c]\<rparr>)))
           = calls p @ ?c # new" "\<forall>c\<in>set new. stage_of c = Mounts"
        by (auto simp: sys_ok)
      with True None show ?thesis
        by (subst custom_mounts_loop.simps) (simp add: sys_ok Let_def)
    qed
  qed
qed


lemma emits_setup_sandbox_mounts: "emits Mounts (setup_sandbox_mounts K config)"
proof (rule emitsI)
  fix p
  let ?c1 = "Mount None ''/'' None (MS_REC OR MS_PRIVATE) None"
  let ?c2 = "Mount (Some ''tmpfs'') ''/tmp'' (Some ''tmpfs'') (MS_NODEV OR MS_NOSUID OR MS_NOEXEC)
               (Some ''size=100M,mode=1777'')"
  let ?p2 = "snd (sys K ?c2 (snd (sys K ?c1 p)))"
  from custom_mounts_loop_calls [of K config 0 ?p2]
  obtain new where new: "calls (snd (custom_mounts_loop K config 0 ?p2)) = calls ?p2 @ new"
    "\<forall>c\<in>set new. stage_of c = Mounts" by blast
  have c2: "calls ?p2 = calls p @ [?c1, ?c2]" by (simp add: sys_calls)
  show "\<exists>new. calls (snd (setup_sandbox_mounts K config p)) = calls p @ new
           \<and> (\<forall>c\<in>set new. stage_of c = Mounts)"
  proof (cases "fst (sys K ?c1 p) < 0")
    case True
    then show ?thesis
      by (intro exI [of _ "[?c1]"]) (simp add: setup_sandbox_mounts_def sys_calls case_prod_beta)
  next
    case n1: False
    show ?thesis
    proof (cases "fst (sys K ?c2 (snd (sys K ?c1 p))) < 0")
      case True
      with n1 c2 show ?thesis
        by (intro exI [of _ "[?c1, ?c2]"]) (simp add: setup_sandbox_mounts_def case_prod_beta)
    next
      case False
      with n1 c2 new show ?thesis
        by (intro exI [of _ "?c1 # ?c2 # new"]) (simp add: setup_sandbox_mounts_def case_prod_beta)
    qed
  qed
qed

lemma emits_apply_seccomp_filter: "emits Seccomp (apply_seccomp_filter K a)"
  by (rule emitsI)
     (auto simp: apply_seccomp_filter_def sys_def split: option.splits)

lemma emits_drop_all_capabilities_except: "emits Capabilities (drop_all_capabilities_except K req)"
  by (rule emitsI)
     (auto simp: drop_all_capabilities_except_def secureos_cap_drop_all_except_def
        secureos_cap_get_proc_def secureos_cap_set_proc_def audit_capability_operation_def
        log_audit_def sys_def split: option.splits prod.splits)

lemma wanted_limits_stage: "c \<in> set (wanted_limits lim) \<Longrightarrow> stage_of c = Rlimits"
  by (auto simp: wanted_limits_def split: if_splits)

lemma emits_apply_resource_limits: "emits Rlimits (apply_resource_limits K lim)"
proof (rule emitsI)
  fix p
  from issue_all_calls [of "wanted_limits lim" K p]
  obtain n where "calls (snd (issue_all K (wanted_limits lim) p)) = calls p @ take n (wanted_limits lim)"
    by blast
  moreover have "\<forall>c\<in>set (take n (wanted_limits lim)). stage_of c = Rlimits"
    by (auto dest: in_set_takeD wanted_limits_stage)
  ultimately show "\<exists>new. calls (snd (apply_resource_limits K lim p)) = calls p @ new
           \<and> (\<forall>c\<in>set new. stage_of c = Rlimits)"
    by (auto simp: apply_resource_limits_issue)
qed

lemma emits_change_to_sandbox_user: "emits Privdrop (change_to_sandbox_user K u g)"
  by (rule emitsI)
     (auto simp: change_to_sandbox_user_def sys_def split: option.splits)

lemma emits_exec:
  "emits Exec (\<lambda>p. sys K (Execve path args env) (audit_log_sandbox_success self p))"
  by (rule emitsI) (simp add: sys_calls audit_log_sandbox_success_def log_audit_def)

lemma builder_machine_sorted:
  assumes "\<forall>(s, f)\<in>set stages. emits s f" and "sorted (map (\<lambda>sf. stage_rank (fst sf)) stages)"
  shows "\<exists>new. calls (snd (builder_machine stages p)) = calls p @ new
           \<and> sorted (map (\<lambda>c. stage_rank (stage_of c)) new)
           \<and> (\<forall>c\<in>set new. \<exists>s\<in>fst ` set stages. stage_of c = s)"
  using assms
proof (induction stages arbitrary: p)
  case Nil
  show ?case by simp
next
  case (Cons sf rest)
  obtain s f where sf: "sf = (s, f)" by (cases sf)
  from Cons.prems(1) sf have "emits s f" by simp
  then obtain new1 where n1: "calls (snd (f p)) = calls p @ new1" "\<forall>c\<in>set new1. stage_of c = s"
    by (auto simp: emits_def)
  have s1: "sorted (map (\<lambda>c. stage_rank (stage_of c)) new1)"
    using n1(2) by (induction new1) auto
  show ?case
  proof (cases "fst (f p) < 0")
    case True
    with n1 sf s1 show ?thesis
      by (intro exI [of _ new1]) (auto simp: comp_def split: prod.splits)
  next
    case False
    from Cons.prems have "\<forall>(s, f)\<in>set rest. emits s f" "sorted (map (\<lambda>sf. stage_rank (fst sf)) rest)"
      by simp_all
    from Cons.IH [OF this, of "snd (f p)"]
    obtain new2 where n2: "calls (snd (builder_machine rest (snd (f p)))) = calls (snd (f p)) @ new2"
      "sorted (map (\<lambda>c. stage_rank (stage_of c)) new2)"
      "\<forall>c\<in>set new2. \<exists>s\<in>fst ` set rest. stage_of c = s" by blast
    from Cons.prems(2) sf have le: "\<forall>t\<in>fst ` set rest. stage_rank s \<le> stage_rank t"
      by auto
    have "sorted (map (\<lambda>c. stage_rank (stage_of c)) (new1 @ new2))"
      using s1 n2(2,3) n1(2) le by (fastforce simp: sorted_append)
    with False n1 n2 sf show ?thesis
      by (intro exI [of _ "new1 @ new2"]) (auto simp: comp_def split: prod.splits)
  qed
qed

lemma capbset_loop_calls:
  "calls (capbset_loop K cap p) = calls p @ map Prctl_capbset_drop [cap..37]"
proof (induction "nat (38 - cap)" arbitrary: cap p)
  case 0
  then have "\<not> cap \<le> 37" by simp
  then show ?case by (subst capbset_loop.simps) simp
next
  case (Suc k)
  then have le: "cap \<le> 37" by linarith
  from Suc.hyps(2) have k: "k = nat (38 - (cap + 1))" by linarith
  from le have up: "[cap..37] = cap # [cap + 1..37]" by (simp add: upto_rec1)
  show ?case
    by (subst capbset_loop.simps) (simp add: le Suc.hyps(1) [OF k] sys_calls up)
qed

text \<open>
  Claim C1, as amended. In the child of the process sandbox (secure\_sandbox\_fixed.c) the
  stages run in the order namespaces, mounts, seccomp, capability drop, resource limits,
  privilege drop, exec: the child behaves as the specification's state machine over its
  stage functions in that order, and the system calls it issues are ordered by stage. In
  the child of the phase3 sandbox (secure\_sandbox.c) the stages run in a different order:
  namespaces, optional change of root, resource limits, capability bounding set, group and
  user change, seccomp filter, exec. In both, a stage is entered only when every earlier
  stage has succeeded, and as soon as a stage fails the child exits with
  \<open>EXIT_FAILURE\<close>, which is not zero, without issuing any later call.
\<close>

theorem builder_stage_order:
  "map fst (secure_sandbox_stages K self config)
     = [Namespaces, Mounts, Seccomp, Capabilities, Rlimits, Privdrop, Exec]
   \<and> fst (secure_sandbox_child K self config p)
     = child_end_of (fst (builder_machine (secure_sandbox_stages K self config) p))
   \<and> calls (snd (secure_sandbox_child K self config p))
     = calls (snd (builder_machine (secure_sandbox_stages K self config) p))
   \<and> pipeline_ordered
        (drop (length (calls p)) (calls (snd (secure_sandbox_child K self config p))))
   \<and> map fst (phase3_stages K config3 prog)
     = [Namespaces, Mounts, Rlimits, Capabilities, Privdrop, Privdrop, Seccomp, Exec]
   \<and> fst (secure_sandbox_child_phase3 K config3 prog p)
     = child_end_of (fst (builder_machine (phase3_stages K config3 prog) p))
   \<and> calls (snd (secure_sandbox_child_phase3 K config3 prog p))
     = calls (snd (builder_machine (phase3_stages K config3 prog) p))
   \<and> EXIT_FAILURE \<noteq> 0"
proof -
  have tags: "map fst (secure_sandbox_stages K self config)
     = [Namespaces, Mounts, Seccomp, Capabilities, Rlimits, Privdrop, Exec]"
    by (simp add: secure_sandbox_stages_def)
  have em: "\<forall>(s, f)\<in>set (secure_sandbox_stages K self config). emits s f"
    by (simp add: secure_sandbox_stages_def emits_sys emits_setup_sandbox_mounts
        emits_apply_seccomp_filter emits_drop_all_capabilities_except
        emits_apply_resource_limits emits_change_to_sandbox_user emits_exec)
  have so: "sorted (map (\<lambda>sf. stage_rank (fst sf)) (secure_sandbox_stages K self config))"
    by (simp add: secure_sandbox_stages_def)
  from builder_machine_sorted [OF em so, of p]
  obtain new where new: "calls (snd (builder_machine (secure_sandbox_stages K self config) p)) = calls p @ new"
    "sorted (map (\<lambda>c. stage_rank (stage_of c)) new)" by blast
  have ord: "pipeline_ordered
        (drop (length (calls p)) (calls (snd (secure_sandbox_child K self config p))))"
    using new secure_sandbox_child_refines [of K self config p] by (simp add: pipeline_ordered_def)
  have tags3: "map fst (phase3_stages K config3 prog)
     = [Namespaces, Mounts, Rlimits, Capabilities, Privdrop, Privdrop, Seccomp, Exec]"
    by (simp add: phase3_stages_def)
  show ?thesis
    using tags ord tags3 secure_sandbox_child_refines [of K self config p]
      phase3_child_refines [of K config3 prog p]
    by (simp add: EXIT_FAILURE_def)
qed

text \<open>
  The claim as stated fails on the phase3 sandbox: run on the configuration its \<open>main\<close>
  builds, with every call succeeding, it sets the resource limits before it drops
  capabilities and installs the seccomp filter after the change of user.
\<close>

theorem phase3_order_counterexample:
  "calls (snd (secure_sandbox_child_phase3 accepting main_config ''/bin/true'' fresh_proc))
   = [Unshare (CLONE_NEWNS OR CLONE_NEWPID OR CLONE_NEWNET OR CLONE_NEWUTS OR CLONE_NEWIPC OR CLONE_NEWUSER),
      Mount (Some ''proc'') ''/proc'' (Some ''proc'') (MS_NOSUID OR MS_NOEXEC OR MS_NODEV) None,
      Setrlimit RLIMIT_AS (512 * 1024 * 1024) (512 * 1024 * 1024),
      Setrlimit RLIMIT_NPROC 64 64, Setrlimit RLIMIT_NOFILE 256 256]
     @ map Prctl_capbset_drop [0..37]
     @ [Prctl_set_no_new_privs, Setgid 1000, Setuid 1000,
        Prctl_set_no_new_privs, Prctl_set_seccomp (SECCOMP_MODE_FILTER seccomp_filter_program),
        Execve ''/bin/true'' [''/bin/true''] []]
   \<and> \<not> pipeline_ordered
      (calls (snd (secure_sandbox_child_phase3 accepting main_config ''/bin/true'' fresh_proc)))"
proof -
  let ?run = "secure_sandbox_child_phase3 accepting main_config ''/bin/true'' fresh_proc"
  have tr: "calls (snd ?run)
   = [Unshare (CLONE_NEWNS OR CLONE_NEWPID OR CLONE_NEWNET OR CLONE_NEWUTS OR CLONE_NEWIPC OR CLONE_NEWUSER),
      Mount (Some ''proc'') ''/proc'' (Some ''proc'') (MS_NOSUID OR MS_NOEXEC OR MS_NODEV) None,
      Setrlimit RLIMIT_AS (512 * 1024 * 1024) (512 * 1024 * 1024),
      Setrlimit RLIMIT_NPROC 64 64, Setrlimit RLIMIT_NOFILE 256 256]
     @ map Prctl_capbset_drop [0..37]
     @ [Prctl_set_no_new_privs, Setgid 1000, Setuid 1000,
        Prctl_set_no_new_privs, Prctl_set_seccomp (SECCOMP_MODE_FILTER seccomp_filter_program),
        Execve ''/bin/true'' [''/bin/true''] []]"
    by (simp add: secure_sandbox_child_phase3_def setup_namespaces_def set_resource_limits_def
        drop_capabilities_manual_def install_seccomp_filter_def sys_def capbset_loop_calls Let_def
        accepting_def main_config_def fresh_proc_def)
  have "\<not> pipeline_ordered (calls (snd ?run))"
    unfolding tr pipeline_ordered_def by (simp add: sorted_append)
  with tr show ?thesis by simp
qed


lemma app_sandbox_child_refines:
  "fst (app_sandbox_child K pol app_path args p)
     = child_end_of (fst (builder_machine (app_sandbox_stages K pol app_path args) p))
   \<and> calls (snd (app_sandbox_child K pol app_path args p))
     = calls (snd (builder_machine (app_sandbox_stages K pol app_path args) p))"
proof -
  obtain r1 p1 where s1: "sys K (Unshare (if app_sandbox_policy.network_access pol = 0
                 then (CLONE_NEWNS OR CLONE_NEWPID OR CLONE_NEWUTS OR CLONE_NEWIPC) OR CLONE_NEWNET
                 else CLONE_NEWNS OR CLONE_NEWPID OR CLONE_NEWUTS OR CLONE_NEWIPC)) p = (r1, p1)"
    by fastforce
  obtain r2 p2 where s2: "setup_app_filesystem K pol p1 = (r2, p2)" by fastforce
  obtain r3 p3 where s3: "apply_app_seccomp K pol p2 = (r3, p3)" by fastforce
  obtain r4 p4 where s4: "secureos_cap_drop_all_except K (allowed_capabilities pol) p3 = (r4, p4)" by fastforce
  obtain r5 p5 where s5: "apply_app_resource_limits K pol p4 = (r5, p5)" by fastforce
  obtain r6 p6 where s6: "sys K (Setgid (sandbox_gid pol)) p5 = (r6, p6)" by fastforce
  obtain r7 p7 where s7: "sys K (Setuid (sandbox_uid pol)) p6 = (r7, p7)" by fastforce
  note defs = app_sandbox_child_def app_sandbox_stages_def Let_def
    audit_log_app_sandbox_event_def log_audit_def s1 s2 s3 s4 s5 s6 s7
  show ?thesis
  proof (cases "r1 < 0")
    case True
    then show ?thesis using  TrueI by (simp add: defs split del: if_split)
  next
    case n1: False
    show ?thesis
    proof (cases "r2 < 0")
      case True
      then show ?thesis using n1 TrueI by (simp add: defs split del: if_split)
    next
      case n2: False
      show ?thesis
      proof (cases "r3 < 0")
        case True
        then show ?thesis using n1 n2 TrueI by (simp add: defs split del: if_split)
      next
        case n3: False
        show ?thesis
        proof (cases "r4 < 0")
          case True
          then show ?thesis using n1 n2 n3 TrueI by (simp add: defs split del: if_split)
        next
          case n4: False
          show ?thesis
          proof (cases "r5 < 0")
            case True
            then show ?thesis using n1 n2 n3 n4 TrueI by (simp add: defs split del: if_split)
          next
            case n5: False
            show ?thesis
            proof (cases "r6 < 0")
              case True
              then show ?thesis using n1 n2 n3 n4 n5 TrueI by (simp add: defs split del: if_split)
            next
              case n6: False
              show ?thesis
              proof (cases "r7 < 0")
                case True
                then show ?thesis using n1 n2 n3 n4 n5 n6 TrueI by (simp add: defs split del: if_split)
              next
                case n7: False
                show ?thesis
                proof -
                  obtain r8 p8 where s8: "sys K (Setuid 0) p7 = (r8, p8)" by fastforce
                  obtain r9 p9 where s9: "sys K (Execv app_path args)
                      (p8\<lparr>audit := audit p8 @ [App_sandbox_event ''creation'' (app_name pol) 0]\<rparr>) = (r9, p9)" by fastforce
                  have r8: "r8 = 0 \<or> r8 = - 1" using sys_cases [OF s8] by auto
                  show ?thesis
                  proof (cases "r8 = 0")
                    case True
                    then show ?thesis using n1 n2 n3 n4 n5 n6 n7 neg_errno_code_negative [of EPERM]
                      by (simp add: defs s8 split del: if_split)
                  next
                    case False
                    with r8 have "r8 = - 1" by simp
                    then show ?thesis using n1 n2 n3 n4 n5 n6 n7
                      by (cases "r9 < 0") (simp_all add: defs s8 s9 split del: if_split)
                  qed
                qed
              qed
            qed
          qed
        qed
      qed
    qed
  qed
qed















text \<open>
  Claim C8, as amended. Every failing stage of the child-side pipeline (namespace creation,
  mount setup, seccomp setup, capability drop, resource limits, user change, exec) exits
  the child with the same fixed code, \<open>EXIT_FAILURE\<close> = 1, in the process sandbox and in
  the application sandbox alike: the exit code is not zero and does not depend on the
  stage that failed.
\<close>

theorem failure_exit_code_is_shared:
  "fst (secure_sandbox_child K self config p)
     = (case fst (builder_machine (secure_sandbox_stages K self config) p) of
          None \<Rightarrow> Image_replaced | Some failed \<Rightarrow> Exited 1)
   \<and> fst (app_sandbox_child K pol app_path args p)
     = (case fst (builder_machine (app_sandbox_stages K pol app_path args) p) of
          None \<Rightarrow> Image_replaced | Some failed \<Rightarrow> Exited 1)"
  using secure_sandbox_child_refines [of K self config p]
    app_sandbox_child_refines [of K pol app_path args p]
  by (simp add: EXIT_FAILURE_def split: option.splits)

text \<open>
  The claim as stated fails. \<open>create_secure_sandbox\<close>, called with the configuration whose
  program path is empty, forks; in the child, a refused \<open>unshare\<close> fails the namespace
  stage and a refused \<open>mount\<close> fails the mount stage, and the child exits with code 1
  both times. The same holds for \<open>create_app_sandbox\<close> with a policy that validation
  accepts.
\<close>

theorem distinct_exit_codes_counterexample:
  "fst (builder_machine (secure_sandbox_stages no_namespaces 4242 unnamed_config) fresh_proc) = Some Namespaces
   \<and> fst (create_secure_sandbox no_namespaces (Fork_returned 0) 4242 1000 (Some unnamed_config) fresh_proc)
       = Child_ended (Exited 1)
   \<and> fst (builder_machine (secure_sandbox_stages no_mounts 4242 unnamed_config) fresh_proc) = Some Mounts
   \<and> fst (create_secure_sandbox no_mounts (Fork_returned 0) 4242 1000 (Some unnamed_config) fresh_proc)
       = Child_ended (Exited 1)
   \<and> fst (builder_machine (app_sandbox_stages no_namespaces viewer_policy ''/usr/bin/viewer'' [''viewer''])
            fresh_proc) = Some Namespaces
   \<and> fst (create_app_sandbox no_namespaces (Fork_returned 0) (Some viewer_policy)
            ''/usr/bin/viewer'' [''viewer''] fresh_proc) = Child_ended (Exited 1)
   \<and> fst (builder_machine (app_sandbox_stages no_mounts viewer_policy ''/usr/bin/viewer'' [''viewer''])
            fresh_proc) = Some Mounts
   \<and> fst (create_app_sandbox no_mounts (Fork_returned 0) (Some viewer_policy)
            ''/usr/bin/viewer'' [''viewer''] fresh_proc) = Child_ended (Exited 1)"
proof -
  have v: "validate_sandbox_config 1000 (Some unnamed_config) \<noteq> 0"
    using errno_code_nonzero [of EINVAL]
    by (simp add: validate_sandbox_config_def unnamed_config_def true_config_def)
  have w: "\<not> validate_app_policy (Some viewer_policy) < 0"
    by (simp add: validate_app_policy_def viewer_policy_def MAX_ALLOWED_FILES_def
        MAX_ALLOWED_SYSCALLS_def)
  have a: "fst (builder_machine (secure_sandbox_stages no_namespaces 4242 unnamed_config) fresh_proc)
      = Some Namespaces"
    "fst (secure_sandbox_child no_namespaces 4242 unnamed_config fresh_proc) = Exited 1"
    by (simp_all add: secure_sandbox_stages_def secure_sandbox_child_def sys_def fresh_proc_def
        EXIT_FAILURE_def)
  have b: "fst (builder_machine (secure_sandbox_stages no_mounts 4242 unnamed_config) fresh_proc)
      = Some Mounts"
    "fst (secure_sandbox_child no_mounts 4242 unnamed_config fresh_proc) = Exited 1"
    by (simp_all add: secure_sandbox_stages_def secure_sandbox_child_def setup_sandbox_mounts_def
        sys_def fresh_proc_def EXIT_FAILURE_def errno_code_pos)
  have c: "fst (builder_machine (app_sandbox_stages no_namespaces viewer_policy ''/usr/bin/viewer'' [''viewer''])
            fresh_proc) = Some Namespaces"
    "fst (app_sandbox_child no_namespaces viewer_policy ''/usr/bin/viewer'' [''viewer''] fresh_proc)
       = Exited 1"
    by (simp_all add: app_sandbox_stages_def app_sandbox_child_def sys_def fresh_proc_def
        viewer_policy_def EXIT_FAILURE_def Let_def)
  have d: "fst (builder_machine (app_sandbox_stages no_mounts viewer_policy ''/usr/bin/viewer'' [''viewer''])
            fresh_proc) = Some Mounts"
    "fst (app_sandbox_child no_mounts viewer_policy ''/usr/bin/viewer'' [''viewer''] fresh_proc)
       = Exited 1"
    by (simp_all add: app_sandbox_stages_def app_sandbox_child_def setup_app_filesystem_def
        sys_def fresh_proc_def viewer_policy_def EXIT_FAILURE_def Let_def errno_code_pos)
  from v w a b c d show ?thesis
    by (simp add: create_secure_sandbox_def create_app_sandbox_def case_prod_beta)
qed

section \<open>Validation before process creation\<close>

text \<open>
  Claim C3 says that a policy with target user 0 from a caller that is not user 0 gets a
  permission error and no fork. \<open>validate_sandbox_config\<close> does return \<open>-EPERM\<close> for it,
  but \<open>create_secure_sandbox\<close> tests the result with \<open>!\<close>: for the rejected root
  configuration it calls \<open>fork\<close> and returns the child's process id, and for a
  configuration that validation accepts it returns \<open>-EINVAL\<close> without forking.
\<close>

theorem inverted_validation_forks_for_rejected_root:
  "validate_sandbox_config 1000 (Some root_config) = - errno_code EPERM
   \<and> create_secure_sandbox accepting (Fork_returned 4242) 4241 1000 (Some root_config) fresh_proc
       = (Returned 4242, True, fresh_proc)
   \<and> validate_sandbox_config 1000 (Some true_config) = 0
   \<and> create_secure_sandbox accepting (Fork_returned 4242) 4241 1000 (Some true_config) fresh_proc
       = (Returned (- errno_code EINVAL), False, fresh_proc)"
  using errno_code_nonzero [of EPERM]
  by (simp add: create_secure_sandbox_def validate_sandbox_config_def root_config_def true_config_def)


section \<open>Termination of an application sandbox\<close>

text \<open>How \<open>terminate_app_sandbox\<close> fares on the POSIX process table: on a process that does
  not exist the first \<open>kill\<close> fails and the call returns \<open>-ESRCH\<close>, leaving everything
  as it was; on a process that exists, running or exited, the call returns 0 and the
  process has been reaped.\<close>

lemma terminate_posix_gone:
  "w (sandbox_pid c) = Gone \<Longrightarrow>
     terminate_app_sandbox posix (Some c) w = Some (- errno_code ESRCH, Some c, w, [])"
  by (simp add: terminate_app_sandbox_def posix_def)

lemma terminate_posix_present:
  "w (sandbox_pid c) \<noteq> Gone \<Longrightarrow>
     terminate_app_sandbox posix (Some c) w
       = Some (0, Some (c\<lparr>status := 0\<rparr>), w(sandbox_pid c := Gone),
               [App_sandbox_event ''termination'' (app_name (policy c)) 0])"
  by (cases "w (sandbox_pid c)") (auto simp: terminate_app_sandbox_def posix_def Let_def)

text \<open>
  Claim C7 says that \<open>terminate\<close> on an instance whose process has already exited is a
  no-op that returns the same outcome as the first call, without error.
  \<open>terminate_app_sandbox\<close> never reads \<open>ctx->status\<close> and returns \<open>-errno\<close> whenever the
  first \<open>kill\<close> fails: for the instance with process id 4242, whose process has exited
  and not yet been reaped, the first call returns 0, reaps the process and sets
  \<open>status\<close> to 0; the second call, on the instance as the first left it, returns -3
  (\<open>-ESRCH\<close>).
\<close>

theorem terminate_twice_second_call_fails:
  "terminate_app_sandbox posix (Some viewer_context) exited_child
     = Some (0, Some (viewer_context\<lparr>status := 0\<rparr>), no_process,
             [App_sandbox_event ''termination'' ''viewer'' 0])
   \<and> terminate_app_sandbox posix (Some (viewer_context\<lparr>status := 0\<rparr>)) no_process
     = Some (- 3, Some (viewer_context\<lparr>status := 0\<rparr>), no_process, [])"
proof -
  have w: "exited_child(4242 := Gone) = no_process"
    by (auto simp: exited_child_def no_process_def fun_eq_iff)
  have 1: "terminate_app_sandbox posix (Some viewer_context) exited_child
     = Some (0, Some (viewer_context\<lparr>status := 0\<rparr>), no_process,
             [App_sandbox_event ''termination'' ''viewer'' 0])"
    using terminate_posix_present [of exited_child viewer_context] w
    by (simp add: viewer_context_def exited_child_def viewer_policy_def)
  have 2: "terminate_app_sandbox posix (Some (viewer_context\<lparr>status := 0\<rparr>)) no_process
     = Some (- 3, Some (viewer_context\<lparr>status := 0\<rparr>), no_process, [])"
    using terminate_posix_gone [of no_process "viewer_context\<lparr>status := 0\<rparr>"]
    by (simp add: no_process_def ESRCH_def errno_code_Abs)
  from 1 2 show ?thesis by simp
qed

end
